theory Spec2Isabelle
  imports Complex_Main "HOL-Library.Multiset"
begin

section \<open>Data model (internal/models)\<close>

text \<open>
  Timestamps (\<^verbatim>\<open>time.Time\<close>) are integers on a linear time line. Go's \<^verbatim>\<open>int\<close> and
  \<^verbatim>\<open>int64\<close> values are integers; the 64-bit range is written out where the program
  does arithmetic on them (the SQL \<^verbatim>\<open>SUM\<close> and the addition in \<^verbatim>\<open>CalculateBalance\<close>).
  The program only ever holds values inside that range; every concrete value used
  below is inside it.
\<close>

type_synonym time = int

definition int64_ok :: "int \<Rightarrow> bool" where
  "int64_ok x = (- (2 ^ 63) \<le> x \<and> x < 2 ^ 63)"

definition wrap64 :: "int \<Rightarrow> int" where
  \<comment> \<open>Go's \<^verbatim>\<open>int64\<close> addition wraps around silently.\<close>
  "wrap64 x = (x + 2 ^ 63) mod 2 ^ 64 - 2 ^ 63"

record Address =
  addr_ID :: int
  addr_Address :: string
  addr_Label :: string
  addr_CreatedAt :: time
  addr_LastSynced :: "time option"

record Transaction =
  tx_ID :: int
  tx_Hash :: string
  tx_Address :: string
  tx_Amount :: int
  tx_Confirmations :: int
  tx_BlockHeight :: int
  tx_Timestamp :: time
  tx_Type :: string

text \<open>
  \<^verbatim>\<open>BalanceBTC\<close> is a \<^verbatim>\<open>float64\<close> in the source; the model keeps the exact quotient,
  of which the program's value is the rounding. Nothing below depends on it except
  where the source writes the literal 0.
\<close>

record Balance =
  bal_Address :: string
  ConfirmedBalance :: int
  UnconfirmedBalance :: int
  TotalBalance :: int
  BalanceBTC :: real

record AddressWithBalance =
  awb_Address :: Address
  awb_Balance :: Balance

text \<open>
  Go errors are values built by \<^verbatim>\<open>fmt.Errorf\<close>; \<open>Wrapped msg e\<close> is
  \<^verbatim>\<open>fmt.Errorf("msg: %w", e)\<close>.
\<close>

datatype error =
    AddressNotFound string
  | ConstraintViolation
  | IntegerOverflow
  | TransportFailure
  | ApiStatus int
  | DecodeFailure
  | InvalidAddress string
  | AlreadyTracked string
  | SyncCompletedWithErrors nat
  | Wrapped string error

section \<open>The SQLite store (internal/repository)\<close>

text \<open>
  The database is the two tables of \<^verbatim>\<open>createTables\<close>, each a list of rows in rowid
  order, with the \<^verbatim>\<open>AUTOINCREMENT\<close> counters. \<open>foreign_keys\<close> is the connection's
  \<^verbatim>\<open>PRAGMA foreign_keys\<close>: SQLite parses \<^verbatim>\<open>FOREIGN KEY ... ON DELETE CASCADE\<close> always
  but enforces it only when the pragma is on.
\<close>

record db =
  foreign_keys :: bool
  addresses :: "Address list"
  transactions :: "Transaction list"
  addresses_seq :: int
  transactions_seq :: int

definition empty_db :: "bool \<Rightarrow> db" where
  "empty_db fk = \<lparr>foreign_keys = fk, addresses = [], transactions = [],
                  addresses_seq = 0, transactions_seq = 0\<rparr>"

definition NewSQLiteRepository :: db where
  \<comment> \<open>\<^verbatim>\<open>sql.Open("sqlite3", dbPath)\<close> on a fresh file: no \<^verbatim>\<open>_foreign_keys\<close> in the
      DSN and no \<^verbatim>\<open>PRAGMA\<close> statement, so the pragma keeps SQLite's default, off.\<close>
  "NewSQLiteRepository = empty_db False"

definition has_address :: "db \<Rightarrow> string \<Rightarrow> bool" where
  "has_address d a = list_ex (\<lambda>r. addr_Address r = a) (addresses d)"

definition same_key :: "string \<Rightarrow> string \<Rightarrow> Transaction \<Rightarrow> bool" where
  "same_key h a t = (tx_Hash t = h \<and> tx_Address t = a)"

definition SQLiteRepository_AddAddress ::
  "db \<Rightarrow> time \<Rightarrow> string \<Rightarrow> string \<Rightarrow> (error + Address) \<times> db" where
  \<comment> \<open>\<^verbatim>\<open>INSERT INTO addresses (address, label) VALUES (?, ?) RETURNING id, created_at\<close>;
      \<^verbatim>\<open>address\<close> is \<^verbatim>\<open>UNIQUE\<close>, \<^verbatim>\<open>created_at\<close> defaults to the current time.\<close>
  "SQLiteRepository_AddAddress d now address label =
     (if has_address d address
      then (Inl (Wrapped ''failed to add address'' ConstraintViolation), d)
      else let i = addresses_seq d + 1;
               row = \<lparr>addr_ID = i, addr_Address = address, addr_Label = label,
                      addr_CreatedAt = now, addr_LastSynced = None\<rparr>
           in (Inr row, d\<lparr>addresses := addresses d @ [row], addresses_seq := i\<rparr>))"

definition SQLiteRepository_RemoveAddress :: "db \<Rightarrow> string \<Rightarrow> error option \<times> db" where
  \<comment> \<open>\<^verbatim>\<open>DELETE FROM addresses WHERE address = ?\<close>, then \<^verbatim>\<open>RowsAffected\<close>.\<close>
  "SQLiteRepository_RemoveAddress d address =
     (let rowsAffected = length (filter (\<lambda>r. addr_Address r = address) (addresses d))
      in if rowsAffected = 0 then (Some (AddressNotFound address), d)
         else (None,
               d\<lparr>addresses := filter (\<lambda>r. addr_Address r \<noteq> address) (addresses d),
                 transactions :=
                   (if foreign_keys d
                    then filter (\<lambda>t. tx_Address t \<noteq> address) (transactions d)
                    else transactions d)\<rparr>))"

definition SQLiteRepository_GetAddress :: "db \<Rightarrow> string \<Rightarrow> error + Address" where
  "SQLiteRepository_GetAddress d address =
     (case find (\<lambda>r. addr_Address r = address) (addresses d) of
        None \<Rightarrow> Inl (AddressNotFound address)
      | Some r \<Rightarrow> Inr r)"

definition SQLiteRepository_GetAllAddresses :: "db \<Rightarrow> error + Address list" where
  \<comment> \<open>\<^verbatim>\<open>ORDER BY created_at DESC\<close>; rows with equal keys stay in rowid order.\<close>
  "SQLiteRepository_GetAllAddresses d =
     Inr (sort_key (\<lambda>r. - addr_CreatedAt r) (addresses d))"

definition SQLiteRepository_UpdateLastSynced ::
  "db \<Rightarrow> string \<Rightarrow> time \<Rightarrow> error option \<times> db" where
  \<comment> \<open>\<^verbatim>\<open>UPDATE addresses SET last_synced = ? WHERE address = ?\<close>.\<close>
  "SQLiteRepository_UpdateLastSynced d address syncTime =
     (None,
      d\<lparr>addresses :=
          map (\<lambda>r. if addr_Address r = address
                   then r\<lparr>addr_LastSynced := Some syncTime\<rparr> else r)
              (addresses d)\<rparr>)"

definition SQLiteRepository_SaveTransaction ::
  "db \<Rightarrow> Transaction \<Rightarrow> error option \<times> db" where
  \<comment> \<open>\<^verbatim>\<open>INSERT OR REPLACE INTO transactions (hash, address, ...)\<close>: rows that
      conflict on \<^verbatim>\<open>UNIQUE(hash, address)\<close> are deleted and the new row gets a fresh
      id. With foreign keys enforced, an unknown parent address is a constraint
      failure.\<close>
  "SQLiteRepository_SaveTransaction d tx =
     (if foreign_keys d \<and> \<not> has_address d (tx_Address tx)
      then (Some (Wrapped ''failed to save transaction'' ConstraintViolation), d)
      else let i = transactions_seq d + 1
           in (None,
               d\<lparr>transactions :=
                   filter (\<lambda>t. \<not> same_key (tx_Hash tx) (tx_Address tx) t) (transactions d)
                   @ [tx\<lparr>tx_ID := i\<rparr>],
                 transactions_seq := i\<rparr>))"

definition SQLiteRepository_GetTransactionsByAddress ::
  "db \<Rightarrow> string \<Rightarrow> int \<Rightarrow> int \<Rightarrow> error + Transaction list" where
  \<comment> \<open>\<^verbatim>\<open>WHERE address = ? ORDER BY timestamp DESC LIMIT ? OFFSET ?\<close>. In SQLite a
      negative \<^verbatim>\<open>LIMIT\<close> is no limit and a negative \<^verbatim>\<open>OFFSET\<close> is 0. Rows with
      equal timestamps stay in rowid order.\<close>
  "SQLiteRepository_GetTransactionsByAddress d address limit offset =
     (let rows = sort_key (\<lambda>t. - tx_Timestamp t)
                   (filter (\<lambda>t. tx_Address t = address) (transactions d));
          rest = drop (nat offset) rows
      in Inr (if limit < 0 then rest else take (nat limit) rest))"

definition SQLiteRepository_TransactionExists ::
  "db \<Rightarrow> string \<Rightarrow> string \<Rightarrow> error + bool" where
  \<comment> \<open>\<^verbatim>\<open>SELECT COUNT(*) FROM transactions WHERE hash = ? AND address = ?\<close>.\<close>
  "SQLiteRepository_TransactionExists d hash address =
     (let count = length (filter (same_key hash address) (transactions d))
      in Inr (count > 0))"

fun sqlite_sum :: "int list \<Rightarrow> int \<Rightarrow> error + int" where
  \<comment> \<open>SQLite's \<^verbatim>\<open>SUM\<close> over integers: a 64-bit accumulator, and an "integer overflow"
      error as soon as a partial sum leaves the range.\<close>
  "sqlite_sum [] acc = Inr acc"
| "sqlite_sum (x # xs) acc =
     (if int64_ok (acc + x) then sqlite_sum xs (acc + x) else Inl IntegerOverflow)"

definition confirmed_amounts :: "db \<Rightarrow> string \<Rightarrow> int list" where
  "confirmed_amounts d address =
     map tx_Amount
       (filter (\<lambda>t. tx_Address t = address \<and> tx_Confirmations t \<ge> 1) (transactions d))"

definition unconfirmed_amounts :: "db \<Rightarrow> string \<Rightarrow> int list" where
  "unconfirmed_amounts d address =
     map tx_Amount
       (filter (\<lambda>t. tx_Address t = address \<and> tx_Confirmations t = 0) (transactions d))"

definition SQLiteRepository_CalculateBalance :: "db \<Rightarrow> string \<Rightarrow> error + Balance" where
  "SQLiteRepository_CalculateBalance d address =
     (case sqlite_sum (confirmed_amounts d address) 0 of
        Inl e \<Rightarrow> Inl (Wrapped ''failed to calculate confirmed balance'' e)
      | Inr confirmedBalance \<Rightarrow>
          (case sqlite_sum (unconfirmed_amounts d address) 0 of
             Inl e \<Rightarrow> Inl (Wrapped ''failed to calculate unconfirmed balance'' e)
           | Inr unconfirmedBalance \<Rightarrow>
               let totalBalance = wrap64 (confirmedBalance + unconfirmedBalance)
               in Inr \<lparr>bal_Address = address,
                       ConfirmedBalance = confirmedBalance,
                       UnconfirmedBalance = unconfirmedBalance,
                       TotalBalance = totalBalance,
                       BalanceBTC = of_int totalBalance / 100000000\<rparr>))"

definition SQLiteRepository_GetBalance :: "db \<Rightarrow> string \<Rightarrow> error + Balance" where
  "SQLiteRepository_GetBalance d address = SQLiteRepository_CalculateBalance d address"

section \<open>The Blockchair client (internal/clients)\<close>

record BlockchairTransaction =
  bc_BlockID :: int
  bc_Hash :: string
  bc_Time :: time
  bc_BalanceChange :: int

text \<open>
  What the HTTP request of \<^verbatim>\<open>GetTransactions\<close> yields: no response at all, or a
  status code with the body's transaction list (\<open>None\<close> when the JSON does not
  decode). The upstream is a function of the address and the limit in the URL.
\<close>

datatype http_result =
    NoResponse
  | Response int "BlockchairTransaction list option"

type_synonym upstream = "string \<Rightarrow> int \<Rightarrow> http_result"

definition to_Transaction :: "string \<Rightarrow> BlockchairTransaction \<Rightarrow> Transaction" where
  \<comment> \<open>The body of the loop of \<^verbatim>\<open>GetTransactions\<close>.\<close>
  "to_Transaction address tx =
     (let txType = (if bc_BalanceChange tx < 0 then ''sent'' else ''received'');
          confirmations = (if bc_BlockID tx = 0 then 0 else 6)
      in \<lparr>tx_ID = 0, tx_Hash = bc_Hash tx, tx_Address = address,
           tx_Amount = bc_BalanceChange tx, tx_Confirmations = confirmations,
           tx_BlockHeight = bc_BlockID tx, tx_Timestamp = bc_Time tx,
           tx_Type = txType\<rparr>)"

definition BlockchairClient_GetTransactions ::
  "upstream \<Rightarrow> string \<Rightarrow> int \<Rightarrow> error + Transaction list" where
  "BlockchairClient_GetTransactions up address limit =
     (case up address limit of
        NoResponse \<Rightarrow> Inl (Wrapped ''failed to fetch transactions'' TransportFailure)
      | Response status body \<Rightarrow>
          if status \<noteq> 200 then Inl (ApiStatus status)
          else (case body of
                  None \<Rightarrow> Inl (Wrapped ''failed to decode response'' DecodeFailure)
                | Some txs \<Rightarrow> Inr (map (to_Transaction address) txs)))"

definition BlockchairClient_IsValidAddress :: "string \<Rightarrow> bool" where
  "BlockchairClient_IsValidAddress address =
     (if length address < 26 \<or> length address > 62 then False
      else list_ex (\<lambda>prefix. length address \<ge> length prefix
                              \<and> take (length prefix) address = prefix)
             [''1'', ''3'', ''bc1''])"

section \<open>The service (internal/services)\<close>

definition zero_balance :: "string \<Rightarrow> Balance" where
  "zero_balance address =
     \<lparr>bal_Address = address, ConfirmedBalance = 0, UnconfirmedBalance = 0,
      TotalBalance = 0, BalanceBTC = 0\<rparr>"

fun with_balances :: "db \<Rightarrow> Address list \<Rightarrow> AddressWithBalance list" where
  \<comment> \<open>The loop of \<^verbatim>\<open>GetAllAddresses\<close>.\<close>
  "with_balances d [] = []"
| "with_balances d (addr # rest) =
     (let balance = (case SQLiteRepository_GetBalance d (addr_Address addr) of
                       Inl err \<Rightarrow> zero_balance (addr_Address addr)
                     | Inr b \<Rightarrow> b)
      in \<lparr>awb_Address = addr, awb_Balance = balance\<rparr> # with_balances d rest)"

definition BitcoinService_GetAllAddresses :: "db \<Rightarrow> error + AddressWithBalance list" where
  "BitcoinService_GetAllAddresses d =
     (case SQLiteRepository_GetAllAddresses d of
        Inl err \<Rightarrow> Inl (Wrapped ''failed to get addresses'' err)
      | Inr addrs \<Rightarrow> Inr (with_balances d addrs))"

definition BitcoinService_RemoveAddress :: "db \<Rightarrow> string \<Rightarrow> error option \<times> db" where
  "BitcoinService_RemoveAddress d address = SQLiteRepository_RemoveAddress d address"

definition BitcoinService_GetBalance :: "db \<Rightarrow> string \<Rightarrow> error + Balance" where
  "BitcoinService_GetBalance d address =
     (case SQLiteRepository_GetAddress d address of
        Inl err \<Rightarrow> Inl (Wrapped ''address not being tracked'' err)
      | Inr _ \<Rightarrow> SQLiteRepository_GetBalance d address)"


fun save_new_transactions ::
  "db \<Rightarrow> string \<Rightarrow> Transaction list \<Rightarrow> nat \<Rightarrow> error option \<times> db \<times> nat" where
  \<comment> \<open>The loop of \<^verbatim>\<open>SyncAddress\<close>, with its \<^verbatim>\<open>savedCount\<close>.\<close>
  "save_new_transactions d address [] savedCount = (None, d, savedCount)"
| "save_new_transactions d address (tx # txs) savedCount =
     (case SQLiteRepository_TransactionExists d (tx_Hash tx) address of
        Inl err \<Rightarrow> (Some (Wrapped ''failed to check transaction existence'' err), d, savedCount)
      | Inr exists \<Rightarrow>
          if \<not> exists
          then (case SQLiteRepository_SaveTransaction d tx of
                  (Some err, d') \<Rightarrow>
                    (Some (Wrapped ''failed to save transaction'' err), d', savedCount)
                | (None, d') \<Rightarrow> save_new_transactions d' address txs (savedCount + 1))
          else save_new_transactions d address txs savedCount)"

definition BitcoinService_SyncAddress ::
  "upstream \<Rightarrow> time \<Rightarrow> db \<Rightarrow> string \<Rightarrow> error option \<times> db" where
  \<comment> \<open>\<open>now\<close> is what \<^verbatim>\<open>time.Now()\<close> returns when the watermark is written.\<close>
  "BitcoinService_SyncAddress up now d address =
     (case SQLiteRepository_GetAddress d address of
        Inl err \<Rightarrow> (Some (Wrapped ''address not being tracked'' err), d)
      | Inr _ \<Rightarrow>
          (case BlockchairClient_GetTransactions up address 100 of
             Inl err \<Rightarrow> (Some (Wrapped ''failed to fetch transactions from API'' err), d)
           | Inr txs \<Rightarrow>
               (case save_new_transactions d address txs 0 of
                  (Some err, d', savedCount) \<Rightarrow> (Some err, d')
                | (None, d', savedCount) \<Rightarrow>
                    (case SQLiteRepository_UpdateLastSynced d' address now of
                       (Some err, d'') \<Rightarrow>
                         (Some (Wrapped ''failed to update last synced time'' err), d'')
                     | (None, d'') \<Rightarrow> (None, d'')))))"

fun sync_each ::
  "upstream \<Rightarrow> (string \<Rightarrow> time) \<Rightarrow> db \<Rightarrow> Address list \<Rightarrow> error list \<Rightarrow> error list \<times> db" where
  \<comment> \<open>The loop of \<^verbatim>\<open>SyncAllAddresses\<close>; \<open>clock a\<close> is the time read while \<open>a\<close> is
      synchronised.\<close>
  "sync_each up clock d [] errors = (errors, d)"
| "sync_each up clock d (addr # rest) errors =
     (case BitcoinService_SyncAddress up (clock (addr_Address addr)) d (addr_Address addr) of
        (Some err, d') \<Rightarrow>
          sync_each up clock d' rest
            (errors @ [Wrapped (''sync failed for '' @ addr_Address addr) err])
      | (None, d') \<Rightarrow> sync_each up clock d' rest errors)"

definition BitcoinService_SyncAllAddresses ::
  "upstream \<Rightarrow> (string \<Rightarrow> time) \<Rightarrow> db \<Rightarrow> error option \<times> db" where
  "BitcoinService_SyncAllAddresses up clock d =
     (case SQLiteRepository_GetAllAddresses d of
        Inl err \<Rightarrow> (Some (Wrapped ''failed to get addresses for sync'' err), d)
      | Inr addrs \<Rightarrow>
          (case sync_each up clock d addrs [] of
             (errors, d') \<Rightarrow>
               if length errors > 0
               then (Some (SyncCompletedWithErrors (length errors)), d')
               else (None, d')))"

definition BitcoinService_AddAddress ::
  "upstream \<Rightarrow> time \<Rightarrow> time \<Rightarrow> db \<Rightarrow> string \<Rightarrow> string \<Rightarrow> (error + Address) \<times> db" where
  \<comment> \<open>\<open>created\<close> is the insertion time, \<open>now\<close> the time of the initial sync, whose
      failure is only logged.\<close>
  "BitcoinService_AddAddress up created now d address label =
     (if \<not> BlockchairClient_IsValidAddress address then (Inl (InvalidAddress address), d)
      else (case SQLiteRepository_GetAddress d address of
              Inr existingAddr \<Rightarrow> (Inl (AlreadyTracked address), d)
            | Inl _ \<Rightarrow>
                (case SQLiteRepository_AddAddress d created address label of
                   (Inl err, d') \<Rightarrow> (Inl (Wrapped ''failed to add address'' err), d')
                 | (Inr addr, d') \<Rightarrow>
                     (Inr addr, snd (BitcoinService_SyncAddress up now d' address)))))"

section \<open>Pagination parameters of the handler (internal/handlers)\<close>


section \<open>Notions used in the statements\<close>

definition key_stored :: "db \<Rightarrow> string \<Rightarrow> string \<Rightarrow> bool" where
  \<comment> \<open>Some stored row has the dedup key \<open>(hash, address)\<close>.\<close>
  "key_stored d h a = list_ex (same_key h a) (transactions d)"

definition ingested :: "db \<Rightarrow> Transaction list \<Rightarrow> db" where
  \<comment> \<open>The store after the rows \<open>new\<close> were inserted one by one.\<close>
  "ingested d new =
     d\<lparr>transactions := transactions d @ new,
       transactions_seq := transactions_seq d + int (length new)\<rparr>"

definition marked :: "db \<Rightarrow> string \<Rightarrow> time \<Rightarrow> db" where
  "marked d a t = snd (SQLiteRepository_UpdateLastSynced d a t)"

definition watermark :: "db \<Rightarrow> string \<Rightarrow> time option" where
  \<comment> \<open>\<^verbatim>\<open>last_synced\<close> as \<^verbatim>\<open>GetAddress\<close> reads it.\<close>
  "watermark d a = (case SQLiteRepository_GetAddress d a of
                      Inl _ \<Rightarrow> None | Inr r \<Rightarrow> addr_LastSynced r)"

definition records_of :: "db \<Rightarrow> string \<Rightarrow> Transaction list" where
  "records_of d a = filter (\<lambda>t. tx_Address t = a) (transactions d)"

subsection \<open>Concrete stores and upstream responses\<close>

definition tracked_db :: "string \<Rightarrow> db" where
  "tracked_db a = snd (SQLiteRepository_AddAddress NewSQLiteRepository 1 a ''wallet'')"

definition failing_upstream :: upstream where
  "failing_upstream a l = NoResponse"

definition quiet_upstream :: upstream where
  "quiet_upstream a l = Response 200 (Some [])"

definition pending_upstream :: upstream where
  "pending_upstream a l =
     Response 200 (Some [\<lparr>bc_BlockID = 0, bc_Hash = ''h3'', bc_Time = 3,
                          bc_BalanceChange = 100000000\<rparr>])"

definition confirming_upstream :: upstream where
  "confirming_upstream a l =
     Response 200 (Some [\<lparr>bc_BlockID = 800020, bc_Hash = ''h3'', bc_Time = 3,
                          bc_BalanceChange = 100000000\<rparr>])"

definition stale_db :: db where
  \<comment> \<open>Address \<open>A\<close> after a sync that saw \<open>h3\<close> while it was unconfirmed.\<close>
  "stale_db = snd (BitcoinService_SyncAddress pending_upstream 5 (tracked_db ''A'') ''A'')"

definition scenario_events :: "time \<Rightarrow> time \<Rightarrow> time \<Rightarrow> BlockchairTransaction list" where
  "scenario_events t1 t2 t3 =
     [\<lparr>bc_BlockID = 800000, bc_Hash = ''h1'', bc_Time = t1, bc_BalanceChange = 500000000\<rparr>,
      \<lparr>bc_BlockID = 800010, bc_Hash = ''h2'', bc_Time = t2, bc_BalanceChange = - 200000000\<rparr>,
      \<lparr>bc_BlockID = 0, bc_Hash = ''h3'', bc_Time = t3, bc_BalanceChange = 100000000\<rparr>]"

definition scenario_upstream :: "time \<Rightarrow> time \<Rightarrow> time \<Rightarrow> upstream" where
  "scenario_upstream t1 t2 t3 a l = Response 200 (Some (scenario_events t1 t2 t3))"

definition scenario_db :: "string \<Rightarrow> time \<Rightarrow> time \<Rightarrow> time \<Rightarrow> time \<Rightarrow> db" where
  \<comment> \<open>A freshly tracked address after one sync against the three events.\<close>
  "scenario_db a t1 t2 t3 now =
     snd (BitcoinService_SyncAddress (scenario_upstream t1 t2 t3) now (tracked_db a) a)"

definition huge_upstream :: upstream where
  \<comment> \<open>Two confirmed events of \<open>2 ^ 62\<close> satoshis each.\<close>
  "huge_upstream a l =
     Response 200 (Some [\<lparr>bc_BlockID = 800000, bc_Hash = ''h1'', bc_Time = 1,
                          bc_BalanceChange = 4611686018427387904\<rparr>,
                         \<lparr>bc_BlockID = 800010, bc_Hash = ''h2'', bc_Time = 2,
                          bc_BalanceChange = 4611686018427387904\<rparr>])"

definition overflow_db :: db where
  "overflow_db = snd (BitcoinService_SyncAddress huge_upstream 5 (tracked_db ''A'') ''A'')"

definition spec_confirmed :: "db \<Rightarrow> string \<Rightarrow> int" where
  \<comment> \<open>The spec's words: the sum of the amounts of the address's records with
      \<open>confirmation_count \<ge> 1\<close>, over the integers.\<close>
  "spec_confirmed d a =
     sum_list (map tx_Amount (filter (\<lambda>t. tx_Confirmations t \<ge> 1) (records_of d a)))"

definition spec_unconfirmed :: "db \<Rightarrow> string \<Rightarrow> int" where
  \<comment> \<open>The spec's words: the sum of the amounts of the address's records with
      \<open>confirmation_count = 0\<close>.\<close>
  "spec_unconfirmed d a =
     sum_list (map tx_Amount (filter (\<lambda>t. tx_Confirmations t = 0) (records_of d a)))"

definition volume :: "db \<Rightarrow> string \<Rightarrow> int" where
  \<comment> \<open>The sum of the absolute amounts of the address's records.\<close>
  "volume d a = sum_list (map (\<lambda>t. \<bar>tx_Amount t\<bar>) (records_of d a))"

subsection \<open>The dedup key and the reachable stores\<close>

definition tx_key :: "Transaction \<Rightarrow> string \<times> string" where
  "tx_key t = (tx_Hash t, tx_Address t)"

definition unique_keys :: "db \<Rightarrow> bool" where
  "unique_keys d = distinct (map tx_key (transactions d))"

text \<open>
  Every write of the program is one of four SQL statements, and SQLite runs each
  statement atomically. A store is reachable when some sequence of these statements,
  with any arguments, leads to it from the empty tables: this covers every
  interleaving of concurrent calls of the service, whose steps are such statements.
\<close>

inductive reachable :: "db \<Rightarrow> bool" where
  opened: "reachable (empty_db fk)"
| AddAddress: "reachable d \<Longrightarrow> reachable (snd (SQLiteRepository_AddAddress d now a l))"
| RemoveAddress: "reachable d \<Longrightarrow> reachable (snd (SQLiteRepository_RemoveAddress d a))"
| UpdateLastSynced:
    "reachable d \<Longrightarrow> reachable (snd (SQLiteRepository_UpdateLastSynced d a t))"
| SaveTransaction: "reachable d \<Longrightarrow> reachable (snd (SQLiteRepository_SaveTransaction d tx))"

subsection \<open>Synchronising several addresses\<close>

definition fetch_fails :: "upstream \<Rightarrow> string \<Rightarrow> bool" where
  "fetch_fails up a = isl (BlockchairClient_GetTransactions up a 100)"

text \<open>
  What synchronising the addresses in \<open>A\<close>, each once or more, makes of a store:
  the tracked addresses stay, stored keys stay, the watermarks outside \<open>A\<close> and of
  the addresses whose fetch fails stay, and an address whose fetch succeeds has its
  events stored and its watermark at its clock reading.
\<close>

definition sync_post :: "upstream \<Rightarrow> (string \<Rightarrow> time) \<Rightarrow> string set \<Rightarrow> db \<Rightarrow> db \<Rightarrow> bool" where
  "sync_post up clock A d d' =
     ((\<forall>b. has_address d' b = has_address d b)
    \<and> (\<forall>h b. key_stored d h b \<longrightarrow> key_stored d' h b)
    \<and> (\<forall>b. b \<notin> A \<longrightarrow> watermark d' b = watermark d b)
    \<and> (\<forall>b \<in> A. (fetch_fails up b \<longrightarrow> watermark d' b = watermark d b)
           \<and> (\<forall>txs. BlockchairClient_GetTransactions up b 100 = Inr txs \<longrightarrow>
                  watermark d' b = Some (clock b)
                  \<and> (\<forall>tx \<in> set txs. key_stored d' (tx_Hash tx) b))))"

definition two_db :: db where
  \<comment> \<open>Two tracked addresses, \<open>A\<close> and \<open>B\<close>, nothing stored yet.\<close>
  "two_db = snd (SQLiteRepository_AddAddress (tracked_db ''A'') 2 ''B'' ''other'')"

definition half_upstream :: upstream where
  \<comment> \<open>The upstream answers for \<open>A\<close> and is unreachable for every other address.\<close>
  "half_upstream a l = (if a = ''A'' then Response 200 (Some (scenario_events 1 2 3))
                        else NoResponse)"

section \<open>Basic facts about the store\<close>

lemmas store_defs =
  SQLiteRepository_AddAddress_def SQLiteRepository_GetAddress_def
  SQLiteRepository_TransactionExists_def SQLiteRepository_SaveTransaction_def
  SQLiteRepository_UpdateLastSynced_def NewSQLiteRepository_def empty_db_def
  has_address_def same_key_def

lemmas sync_defs =
  BitcoinService_SyncAddress_def BlockchairClient_GetTransactions_def to_Transaction_def

lemma find_None_ex: "(find P xs = None) = (\<not> list_ex P xs)"
  by (induction xs) auto

lemma find_SomeD: "find P xs = Some r \<Longrightarrow> P r \<and> r \<in> set xs"
  by (induction xs) (auto split: if_splits)

lemma GetAddress_untracked:
  "\<not> has_address d a \<Longrightarrow> SQLiteRepository_GetAddress d a = Inl (AddressNotFound a)"
  by (simp add: SQLiteRepository_GetAddress_def has_address_def find_None_ex [symmetric])

lemma GetAddress_tracked:
  assumes "has_address d a"
  shows "\<exists>r. SQLiteRepository_GetAddress d a = Inr r \<and> addr_Address r = a
             \<and> r \<in> set (addresses d)"
proof -
  have "find (\<lambda>r. addr_Address r = a) (addresses d) \<noteq> None"
    using assms by (simp add: has_address_def find_None_ex)
  then obtain r where r: "find (\<lambda>r. addr_Address r = a) (addresses d) = Some r"
    by blast
  then show ?thesis
    using find_SomeD [OF r] by (simp add: SQLiteRepository_GetAddress_def)
qed

lemma TransactionExists_eq:
  "SQLiteRepository_TransactionExists d h a = Inr (key_stored d h a)"
  by (auto simp: SQLiteRepository_TransactionExists_def key_stored_def list_ex_iff
      filter_empty_conv)

lemma SaveTransaction_fresh_db:
  assumes "\<not> key_stored d (tx_Hash tx) (tx_Address tx)" "has_address d (tx_Address tx)"
  shows "SQLiteRepository_SaveTransaction d tx
         = (None, d\<lparr>transactions := transactions d @ [tx\<lparr>tx_ID := transactions_seq d + 1\<rparr>],
                    transactions_seq := transactions_seq d + 1\<rparr>)"
proof -
  have "filter (\<lambda>t. \<not> same_key (tx_Hash tx) (tx_Address tx) t) (transactions d) = transactions d"
    using assms(1) by (auto simp: key_stored_def list_ex_iff filter_id_conv)
  then show ?thesis
    using assms(2) by (simp add: SQLiteRepository_SaveTransaction_def Let_def)
qed

lemma ingested_Nil [simp]: "ingested d [] = d"
  by (simp add: ingested_def)

lemma ingested_Cons: "ingested (ingested d [t]) new = ingested d (t # new)"
  by (simp add: ingested_def)

lemma has_address_ingested [simp]: "has_address (ingested d new) a = has_address d a"
  by (simp add: has_address_def ingested_def)

lemma key_stored_ingested:
  "key_stored (ingested d new) h a = (key_stored d h a \<or> list_ex (same_key h a) new)"
  by (auto simp: key_stored_def ingested_def list_ex_iff)

lemma list_ex_mark:
  "list_ex (\<lambda>r. addr_Address r = b)
     (map (\<lambda>r. if addr_Address r = a then r\<lparr>addr_LastSynced := Some t\<rparr> else r) xs)
   = list_ex (\<lambda>r. addr_Address r = b) xs"
  by (induction xs) auto

lemma UpdateLastSynced_marked:
  "SQLiteRepository_UpdateLastSynced d a t = (None, marked d a t)"
  by (simp add: marked_def SQLiteRepository_UpdateLastSynced_def)

lemma transactions_marked [simp]: "transactions (marked d a t) = transactions d"
  by (simp add: marked_def SQLiteRepository_UpdateLastSynced_def)

lemma foreign_keys_marked [simp]: "foreign_keys (marked d a t) = foreign_keys d"
  by (simp add: marked_def SQLiteRepository_UpdateLastSynced_def)

lemma has_address_marked [simp]: "has_address (marked d a t) b = has_address d b"
  by (simp add: marked_def SQLiteRepository_UpdateLastSynced_def has_address_def list_ex_mark)

lemma key_stored_marked [simp]: "key_stored (marked d a t) h b = key_stored d h b"
  by (simp add: key_stored_def)

lemma find_map_mark:
  "find (\<lambda>r. addr_Address r = b)
     (map (\<lambda>r. if addr_Address r = a then r\<lparr>addr_LastSynced := Some t\<rparr> else r) xs)
   = map_option (\<lambda>r. if addr_Address r = a then r\<lparr>addr_LastSynced := Some t\<rparr> else r)
       (find (\<lambda>r. addr_Address r = b) xs)"
  by (induction xs) auto

lemma watermark_marked:
  "watermark (marked d a t) b
   = (if b = a \<and> has_address d a then Some t else watermark d b)"
proof (cases "has_address d b")
  case False
  then show ?thesis
    using GetAddress_untracked [of d b] GetAddress_untracked [of "marked d a t" b]
    by (auto simp: watermark_def)
next
  case True
  then obtain r where r: "find (\<lambda>r. addr_Address r = b) (addresses d) = Some r"
    "addr_Address r = b"
    using GetAddress_tracked [of d b]
    by (auto simp: SQLiteRepository_GetAddress_def split: option.splits)
  show ?thesis
    using True r
    by (auto simp: watermark_def SQLiteRepository_GetAddress_def marked_def
        SQLiteRepository_UpdateLastSynced_def find_map_mark)
qed

lemma has_address_tracked_db: "has_address (tracked_db a) a"
  by (simp add: tracked_db_def SQLiteRepository_AddAddress_def NewSQLiteRepository_def
      empty_db_def has_address_def Let_def)

lemma stale_db_eq:
  "stale_db = \<lparr>foreign_keys = False,
     addresses = [\<lparr>addr_ID = 1, addr_Address = ''A'', addr_Label = ''wallet'',
                   addr_CreatedAt = 1, addr_LastSynced = Some 5\<rparr>],
     transactions = [\<lparr>tx_ID = 1, tx_Hash = ''h3'', tx_Address = ''A'',
                      tx_Amount = 100000000, tx_Confirmations = 0, tx_BlockHeight = 0,
                      tx_Timestamp = 3, tx_Type = ''received''\<rparr>],
     addresses_seq = 1, transactions_seq = 1\<rparr>"
  by (simp add: stale_db_def tracked_db_def pending_upstream_def store_defs sync_defs Let_def)

section \<open>The synchronisation loop\<close>

text \<open>
  For a tracked address and events that all carry it (as the client's do), the loop
  never fails: it appends the events whose key is not stored yet, once each, and
  afterwards every event's key is stored.
\<close>

lemma save_new_spec:
  assumes "has_address d a" "\<forall>tx \<in> set txs. tx_Address tx = a"
  shows "\<exists>new. save_new_transactions d a txs n = (None, ingested d new, n + length new)
           \<and> (\<forall>t \<in> set new. tx_Address t = a \<and> \<not> key_stored d (tx_Hash t) a
                  \<and> (\<exists>tx \<in> set txs. \<exists>i. t = tx\<lparr>tx_ID := i\<rparr>))
           \<and> distinct (map tx_Hash new)
           \<and> (\<forall>tx \<in> set txs. key_stored (ingested d new) (tx_Hash tx) a)"
  using assms
proof (induction txs arbitrary: d n)
  case Nil
  have "save_new_transactions d a [] n = (None, ingested d [], n + length ([]::Transaction list))"
    by simp
  then show ?case by fastforce
next
  case (Cons tx txs)
  have addr: "tx_Address tx = a" and rest: "\<forall>t \<in> set txs. tx_Address t = a"
    using Cons.prems(2) by simp_all
  show ?case
  proof (cases "key_stored d (tx_Hash tx) a")
    case True
    from Cons.IH [OF Cons.prems(1) rest, of n]
    obtain new where new: "save_new_transactions d a txs n = (None, ingested d new, n + length new)"
      "\<forall>t \<in> set new. tx_Address t = a \<and> \<not> key_stored d (tx_Hash t) a
                  \<and> (\<exists>tx \<in> set txs. \<exists>i. t = tx\<lparr>tx_ID := i\<rparr>)"
      "distinct (map tx_Hash new)"
      "\<forall>tx \<in> set txs. key_stored (ingested d new) (tx_Hash tx) a"
      by blast
    have "save_new_transactions d a (tx # txs) n = (None, ingested d new, n + length new)"
      using True new(1) by (simp add: TransactionExists_eq)
    moreover have "key_stored (ingested d new) (tx_Hash tx) a"
      using True by (simp add: key_stored_ingested)
    ultimately show ?thesis using new(2,3,4) by (intro exI [of _ new]) auto
  next
    case False
    let ?t = "tx\<lparr>tx_ID := transactions_seq d + 1\<rparr>"
    let ?d1 = "ingested d [?t]"
    have save: "SQLiteRepository_SaveTransaction d tx = (None, ?d1)"
      using SaveTransaction_fresh_db [of d tx] False addr Cons.prems(1)
      by (simp add: ingested_def)
    have h1: "has_address ?d1 a" using Cons.prems(1) by simp
    from Cons.IH [OF h1 rest, of "n + 1"]
    obtain new where new: "save_new_transactions ?d1 a txs (n + 1)
                           = (None, ingested ?d1 new, n + 1 + length new)"
      "\<forall>t \<in> set new. tx_Address t = a \<and> \<not> key_stored ?d1 (tx_Hash t) a
                  \<and> (\<exists>tx \<in> set txs. \<exists>i. t = tx\<lparr>tx_ID := i\<rparr>)"
      "distinct (map tx_Hash new)"
      "\<forall>tx \<in> set txs. key_stored (ingested ?d1 new) (tx_Hash tx) a"
      by blast
    have run: "save_new_transactions d a (tx # txs) n
               = (None, ingested d (?t # new), n + length (?t # new))"
      using False save new(1) by (simp add: TransactionExists_eq ingested_Cons)
    have fresh: "\<forall>t \<in> set new. \<not> key_stored d (tx_Hash t) a \<and> tx_Hash t \<noteq> tx_Hash tx"
      using new(2) addr by (auto simp: key_stored_ingested same_key_def)
    have p2: "\<forall>t \<in> set (?t # new). tx_Address t = a \<and> \<not> key_stored d (tx_Hash t) a
                  \<and> (\<exists>tx' \<in> set (tx # txs). \<exists>i. t = tx'\<lparr>tx_ID := i\<rparr>)"
      using new(2) fresh False addr by auto
    have p3: "distinct (map tx_Hash (?t # new))"
      using new(3) fresh by auto
    have p4: "\<forall>tx' \<in> set (tx # txs). key_stored (ingested d (?t # new)) (tx_Hash tx') a"
      using new(4) addr by (auto simp: ingested_Cons key_stored_ingested same_key_def)
    show ?thesis using run p2 p3 p4 by (intro exI [of _ "?t # new"]) blast
  qed
qed

lemma save_new_noop:
  "\<forall>tx \<in> set txs. key_stored d (tx_Hash tx) a \<Longrightarrow>
   save_new_transactions d a txs n = (None, d, n)"
  by (induction txs arbitrary: n) (simp_all add: TransactionExists_eq)

lemma client_addresses:
  "BlockchairClient_GetTransactions up a l = Inr txs \<Longrightarrow> \<forall>tx \<in> set txs. tx_Address tx = a"
  by (auto simp: BlockchairClient_GetTransactions_def to_Transaction_def Let_def
      split: http_result.splits if_splits option.splits)

subsection \<open>The three outcomes of \<^verbatim>\<open>SyncAddress\<close>\<close>

lemma SyncAddress_untracked:
  "\<not> has_address d a \<Longrightarrow>
   BitcoinService_SyncAddress up now d a
   = (Some (Wrapped ''address not being tracked'' (AddressNotFound a)), d)"
  by (simp add: BitcoinService_SyncAddress_def GetAddress_untracked)

lemma SyncAddress_fetch_failed:
  assumes "has_address d a" "BlockchairClient_GetTransactions up a 100 = Inl e"
  shows "BitcoinService_SyncAddress up now d a
         = (Some (Wrapped ''failed to fetch transactions from API'' e), d)"
proof -
  obtain r where "SQLiteRepository_GetAddress d a = Inr r"
    using GetAddress_tracked [OF assms(1)] by blast
  then show ?thesis using assms(2) by (simp add: BitcoinService_SyncAddress_def)
qed

lemma SyncAddress_fetched:
  assumes "has_address d a" "BlockchairClient_GetTransactions up a 100 = Inr txs"
  shows "\<exists>new. BitcoinService_SyncAddress up now d a = (None, marked (ingested d new) a now)
           \<and> (\<forall>t \<in> set new. tx_Address t = a \<and> \<not> key_stored d (tx_Hash t) a
                  \<and> (\<exists>tx \<in> set txs. \<exists>i. t = tx\<lparr>tx_ID := i\<rparr>))
           \<and> distinct (map tx_Hash new)
           \<and> (\<forall>tx \<in> set txs. key_stored (ingested d new) (tx_Hash tx) a)"
proof -
  obtain r where r: "SQLiteRepository_GetAddress d a = Inr r"
    using GetAddress_tracked [OF assms(1)] by blast
  from save_new_spec [OF assms(1) client_addresses [OF assms(2)], of 0]
  obtain new where new: "save_new_transactions d a txs 0 = (None, ingested d new, 0 + length new)"
      "\<forall>t \<in> set new. tx_Address t = a \<and> \<not> key_stored d (tx_Hash t) a
                  \<and> (\<exists>tx \<in> set txs. \<exists>i. t = tx\<lparr>tx_ID := i\<rparr>)"
      "distinct (map tx_Hash new)"
      "\<forall>tx \<in> set txs. key_stored (ingested d new) (tx_Hash tx) a"
    by blast
  have "BitcoinService_SyncAddress up now d a = (None, marked (ingested d new) a now)"
    using r assms(2) new(1)
    by (simp add: BitcoinService_SyncAddress_def UpdateLastSynced_marked)
  then show ?thesis using new(2,3,4) by blast
qed

lemma SyncAddress_nothing_new:
  assumes "has_address d a" "BlockchairClient_GetTransactions up a 100 = Inr txs"
    "\<forall>tx \<in> set txs. key_stored d (tx_Hash tx) a"
  shows "BitcoinService_SyncAddress up now d a = (None, marked d a now)"
proof -
  obtain r where "SQLiteRepository_GetAddress d a = Inr r"
    using GetAddress_tracked [OF assms(1)] by blast
  then show ?thesis
    using assms(2) save_new_noop [OF assms(3), of 0]
    by (simp add: BitcoinService_SyncAddress_def UpdateLastSynced_marked)
qed

lemma SyncAddress_cases:
  obtains (untracked) "\<not> has_address d a"
      "BitcoinService_SyncAddress up now d a
       = (Some (Wrapped ''address not being tracked'' (AddressNotFound a)), d)"
  | (failed) e where "has_address d a" "BlockchairClient_GetTransactions up a 100 = Inl e"
      "BitcoinService_SyncAddress up now d a
       = (Some (Wrapped ''failed to fetch transactions from API'' e), d)"
  | (fetched) txs new where "has_address d a"
      "BlockchairClient_GetTransactions up a 100 = Inr txs"
      "BitcoinService_SyncAddress up now d a = (None, marked (ingested d new) a now)"
      "\<forall>t \<in> set new. tx_Address t = a \<and> \<not> key_stored d (tx_Hash t) a"
      "\<forall>tx \<in> set txs. key_stored (ingested d new) (tx_Hash tx) a"
      "distinct (map tx_Hash new)"
proof (cases "has_address d a")
  case False
  then show ?thesis using untracked SyncAddress_untracked [of d a up now] by simp
next
  case True
  show ?thesis
  proof (cases "BlockchairClient_GetTransactions up a 100")
    case (Inl e)
    then show ?thesis using failed True SyncAddress_fetch_failed [OF True Inl] by blast
  next
    case (Inr txs)
    then show ?thesis using fetched True SyncAddress_fetched [OF True Inr, of now] by blast
  qed
qed

section \<open>Concrete runs\<close>

lemma scenario_db_eq:
  "transactions (scenario_db a t1 t2 t3 now) =
     [\<lparr>tx_ID = 1, tx_Hash = ''h1'', tx_Address = a, tx_Amount = 500000000,
       tx_Confirmations = 6, tx_BlockHeight = 800000, tx_Timestamp = t1, tx_Type = ''received''\<rparr>,
      \<lparr>tx_ID = 2, tx_Hash = ''h2'', tx_Address = a, tx_Amount = - 200000000,
       tx_Confirmations = 6, tx_BlockHeight = 800010, tx_Timestamp = t2, tx_Type = ''sent''\<rparr>,
      \<lparr>tx_ID = 3, tx_Hash = ''h3'', tx_Address = a, tx_Amount = 100000000,
       tx_Confirmations = 0, tx_BlockHeight = 0, tx_Timestamp = t3, tx_Type = ''received''\<rparr>]"
  by (simp add: scenario_db_def scenario_upstream_def scenario_events_def tracked_db_def
      store_defs sync_defs Let_def)

lemma scenario_db_tracked: "has_address (scenario_db a t1 t2 t3 now) a"
  by (simp add: scenario_db_def scenario_upstream_def scenario_events_def tracked_db_def
      store_defs sync_defs Let_def)

lemma scenario_balance:
  "BitcoinService_GetBalance (scenario_db a t1 t2 t3 now) a
   = Inr \<lparr>bal_Address = a, ConfirmedBalance = 300000000, UnconfirmedBalance = 100000000,
          TotalBalance = 400000000, BalanceBTC = 4\<rparr>"
proof -
  obtain r where "SQLiteRepository_GetAddress (scenario_db a t1 t2 t3 now) a = Inr r"
    using GetAddress_tracked [OF scenario_db_tracked] by blast
  then show ?thesis
    by (simp add: BitcoinService_GetBalance_def SQLiteRepository_GetBalance_def
        SQLiteRepository_CalculateBalance_def confirmed_amounts_def unconfirmed_amounts_def
        scenario_db_eq int64_ok_def wrap64_def)
qed

lemma overflow_db_eq:
  "overflow_db = \<lparr>foreign_keys = False,
     addresses = [\<lparr>addr_ID = 1, addr_Address = ''A'', addr_Label = ''wallet'',
                   addr_CreatedAt = 1, addr_LastSynced = Some 5\<rparr>],
     transactions = [\<lparr>tx_ID = 1, tx_Hash = ''h1'', tx_Address = ''A'',
                      tx_Amount = 4611686018427387904, tx_Confirmations = 6,
                      tx_BlockHeight = 800000, tx_Timestamp = 1, tx_Type = ''received''\<rparr>,
                     \<lparr>tx_ID = 2, tx_Hash = ''h2'', tx_Address = ''A'',
                      tx_Amount = 4611686018427387904, tx_Confirmations = 6,
                      tx_BlockHeight = 800010, tx_Timestamp = 2, tx_Type = ''received''\<rparr>],
     addresses_seq = 1, transactions_seq = 2\<rparr>"
  by (simp add: overflow_db_def tracked_db_def huge_upstream_def store_defs sync_defs Let_def)

lemma overflow_balance:
  "SQLiteRepository_GetBalance overflow_db ''A''
   = Inl (Wrapped ''failed to calculate confirmed balance'' IntegerOverflow)"
  by (simp add: SQLiteRepository_GetBalance_def SQLiteRepository_CalculateBalance_def
      confirmed_amounts_def unconfirmed_amounts_def overflow_db_eq int64_ok_def)

section \<open>Balances\<close>

lemma sqlite_sum_exact:
  "\<bar>acc\<bar> + sum_list (map abs xs) < 2 ^ 63 \<Longrightarrow> sqlite_sum xs acc = Inr (acc + sum_list xs)"
proof (induction xs arbitrary: acc)
  case Nil
  then show ?case by simp
next
  case (Cons x xs)
  have "\<bar>acc + x\<bar> + sum_list (map abs xs) < 2 ^ 63"
    using Cons.prems by simp
  moreover have "0 \<le> sum_list (map abs xs)"
    by (rule sum_list_nonneg) auto
  ultimately have "int64_ok (acc + x)" unfolding int64_ok_def by linarith
  then show ?case
    using Cons.IH [of "acc + x"] \<open>\<bar>acc + x\<bar> + sum_list (map abs xs) < 2 ^ 63\<close> by simp
qed

lemma wrap64_id: "int64_ok x \<Longrightarrow> wrap64 x = x"
  by (simp add: wrap64_def int64_ok_def)

lemma abs_sum_filter_le:
  "sum_list (map (\<lambda>t. \<bar>f t\<bar>) (filter P xs)) \<le> sum_list (map (\<lambda>t. \<bar>f t :: int\<bar>) xs)"
  by (induction xs) auto

lemma abs_sum_list_le: "\<bar>sum_list (map f xs)\<bar> \<le> sum_list (map (\<lambda>t. \<bar>f t :: int\<bar>) xs)"
  by (induction xs) auto

lemma abs_sum_disjoint_le:
  "\<forall>t. \<not> (P t \<and> Q t) \<Longrightarrow>
   sum_list (map (\<lambda>t. \<bar>f t\<bar>) (filter P xs)) + sum_list (map (\<lambda>t. \<bar>f t\<bar>) (filter Q xs))
   \<le> sum_list (map (\<lambda>t. \<bar>f t :: int\<bar>) xs)"
  by (induction xs) auto

lemma confirmed_amounts_eq:
  "confirmed_amounts d a = map tx_Amount (filter (\<lambda>t. tx_Confirmations t \<ge> 1) (records_of d a))"
  by (simp add: confirmed_amounts_def records_of_def conj_commute)

lemma unconfirmed_amounts_eq:
  "unconfirmed_amounts d a = map tx_Amount (filter (\<lambda>t. tx_Confirmations t = 0) (records_of d a))"
  by (simp add: unconfirmed_amounts_def records_of_def conj_commute)

lemma CalculateBalance_exact:
  assumes "volume d a < 2 ^ 63"
  shows "SQLiteRepository_CalculateBalance d a
         = Inr \<lparr>bal_Address = a, ConfirmedBalance = spec_confirmed d a,
                UnconfirmedBalance = spec_unconfirmed d a,
                TotalBalance = spec_confirmed d a + spec_unconfirmed d a,
                BalanceBTC = of_int (spec_confirmed d a + spec_unconfirmed d a) / 100000000\<rparr>"
proof -
  let ?xs = "records_of d a"
  let ?P = "\<lambda>t. tx_Confirmations t \<ge> 1" and ?Q = "\<lambda>t. tx_Confirmations t = 0"
  have v: "sum_list (map (\<lambda>t. \<bar>tx_Amount t\<bar>) ?xs) < 2 ^ 63"
    using assms by (simp add: volume_def)
  have "sum_list (map abs (confirmed_amounts d a)) < 2 ^ 63"
    using abs_sum_filter_le [of tx_Amount ?P ?xs] v
    by (simp add: confirmed_amounts_eq comp_def)
  then have c: "sqlite_sum (confirmed_amounts d a) 0 = Inr (spec_confirmed d a)"
    using sqlite_sum_exact [of 0 "confirmed_amounts d a"]
    by (simp add: spec_confirmed_def confirmed_amounts_eq)
  have "sum_list (map abs (unconfirmed_amounts d a)) < 2 ^ 63"
    using abs_sum_filter_le [of tx_Amount ?Q ?xs] v
    by (simp add: unconfirmed_amounts_eq comp_def)
  then have u: "sqlite_sum (unconfirmed_amounts d a) 0 = Inr (spec_unconfirmed d a)"
    using sqlite_sum_exact [of 0 "unconfirmed_amounts d a"]
    by (simp add: spec_unconfirmed_def unconfirmed_amounts_eq)
  have "\<bar>spec_confirmed d a + spec_unconfirmed d a\<bar>
        \<le> sum_list (map (\<lambda>t. \<bar>tx_Amount t\<bar>) (filter ?P ?xs))
          + sum_list (map (\<lambda>t. \<bar>tx_Amount t\<bar>) (filter ?Q ?xs))"
    using abs_sum_list_le [of tx_Amount "filter ?P ?xs"]
      abs_sum_list_le [of tx_Amount "filter ?Q ?xs"]
    by (simp add: spec_confirmed_def spec_unconfirmed_def)
  also have "\<dots> \<le> sum_list (map (\<lambda>t. \<bar>tx_Amount t\<bar>) ?xs)"
    by (rule abs_sum_disjoint_le) auto
  finally have "int64_ok (spec_confirmed d a + spec_unconfirmed d a)"
    using v unfolding int64_ok_def by linarith
  then show ?thesis
    using c u by (simp add: SQLiteRepository_CalculateBalance_def wrap64_id)
qed

lemma sum_list_as_mset:
  "sum_list (map f (filter P zs)) = sum_mset (image_mset (f :: 'a \<Rightarrow> int) (filter_mset P (mset zs)))"
  using sum_mset_sum_list [of "map f (filter P zs)"] by simp

lemma sum_filter_mset:
  "mset xs = mset ys \<Longrightarrow>
   sum_list (map f (filter P xs)) = sum_list (map (f :: 'a \<Rightarrow> int) (filter P ys))"
  by (simp add: sum_list_as_mset)

lemma sum_map_mset:
  "mset xs = mset ys \<Longrightarrow> sum_list (map f xs) = sum_list (map (f :: 'a \<Rightarrow> int) ys)"
  using sum_filter_mset [of xs ys f "\<lambda>_. True"] by simp

lemma records_of_mset:
  "mset (transactions d') = mset (transactions d) \<Longrightarrow> mset (records_of d' a) = mset (records_of d a)"
  by (simp add: records_of_def)

lemma with_balances_spec:
  "map awb_Address (with_balances d addrs) = addrs
   \<and> (\<forall>x \<in> set (with_balances d addrs).
        awb_Balance x = (case SQLiteRepository_GetBalance d (addr_Address (awb_Address x)) of
                           Inl e \<Rightarrow> zero_balance (addr_Address (awb_Address x))
                         | Inr b \<Rightarrow> b))"
  by (induction addrs) (auto simp: Let_def split: sum.splits)

section \<open>Uniqueness of the dedup key\<close>

lemma same_key_iff: "same_key (tx_Hash tx) (tx_Address tx) t = (tx_key t = tx_key tx)"
  by (auto simp: same_key_def tx_key_def)

lemma tx_key_ID [simp]: "tx_key (tx\<lparr>tx_ID := i\<rparr>) = tx_key tx"
  by (simp add: tx_key_def)

lemma SaveTransaction_unique:
  assumes "unique_keys d"
  shows "unique_keys (snd (SQLiteRepository_SaveTransaction d tx))"
proof (cases "foreign_keys d \<and> \<not> has_address d (tx_Address tx)")
  case True
  then show ?thesis using assms by (simp add: SQLiteRepository_SaveTransaction_def)
next
  case False
  let ?kept = "filter (\<lambda>t. \<not> same_key (tx_Hash tx) (tx_Address tx) t) (transactions d)"
  have "distinct (map tx_key ?kept)"
    using assms by (simp add: unique_keys_def distinct_map_filter)
  moreover have "tx_key tx \<notin> set (map tx_key ?kept)"
    by (auto simp: same_key_iff)
  ultimately show ?thesis
    unfolding SQLiteRepository_SaveTransaction_def if_not_P [OF False]
    by (simp add: Let_def unique_keys_def)
qed

lemma RemoveAddress_unique:
  "unique_keys d \<Longrightarrow> unique_keys (snd (SQLiteRepository_RemoveAddress d a))"
  by (simp add: SQLiteRepository_RemoveAddress_def Let_def unique_keys_def distinct_map_filter)

lemma AddAddress_unique:
  "unique_keys d \<Longrightarrow> unique_keys (snd (SQLiteRepository_AddAddress d now a l))"
  by (simp add: SQLiteRepository_AddAddress_def Let_def unique_keys_def)

lemma UpdateLastSynced_unique:
  "unique_keys d \<Longrightarrow> unique_keys (snd (SQLiteRepository_UpdateLastSynced d a t))"
  by (simp add: SQLiteRepository_UpdateLastSynced_def unique_keys_def)

lemma reachable_save_new:
  "reachable d \<Longrightarrow> reachable (fst (snd (save_new_transactions d a txs n)))"
proof (induction txs arbitrary: d n)
  case Nil
  then show ?case by simp
next
  case (Cons tx txs)
  have r: "reachable (snd (SQLiteRepository_SaveTransaction d tx))"
    using Cons.prems by (rule reachable.SaveTransaction)
  show ?case
  proof (cases "key_stored d (tx_Hash tx) a")
    case True
    then show ?thesis using Cons by (simp add: TransactionExists_eq)
  next
    case False
    show ?thesis
    proof (cases "SQLiteRepository_SaveTransaction d tx")
      case (Pair err d')
      then have "reachable d'" using r by simp
      then show ?thesis
        using False Pair Cons.IH [of d' "n + 1"]
        by (cases err) (simp_all add: TransactionExists_eq)
    qed
  qed
qed

lemma reachable_SyncAddress:
  assumes "reachable d"
  shows "reachable (snd (BitcoinService_SyncAddress up now d a))"
proof (cases "SQLiteRepository_GetAddress d a")
  case (Inl e)
  then show ?thesis using assms by (simp add: BitcoinService_SyncAddress_def)
next
  case (Inr r)
  show ?thesis
  proof (cases "BlockchairClient_GetTransactions up a 100")
    case (Inl e)
    then show ?thesis using assms Inr by (simp add: BitcoinService_SyncAddress_def)
  next
    case (Inr txs)
    obtain err d' n where run: "save_new_transactions d a txs 0 = (err, d', n)"
      by (cases "save_new_transactions d a txs 0") auto
    then have d': "reachable d'" using reachable_save_new [OF assms, of a txs 0] by simp
    then have "reachable (marked d' a now)"
      unfolding marked_def by (rule reachable.UpdateLastSynced)
    then show ?thesis
      using \<open>SQLiteRepository_GetAddress d a = Inr r\<close> Inr run d'
      by (cases err) (simp_all add: BitcoinService_SyncAddress_def UpdateLastSynced_marked)
  qed
qed

lemma reachable_sync_each:
  "reachable d \<Longrightarrow> reachable (snd (sync_each up clock d addrs errs))"
proof (induction addrs arbitrary: d errs)
  case Nil
  then show ?case by simp
next
  case (Cons addr addrs)
  obtain err d' where run:
    "BitcoinService_SyncAddress up (clock (addr_Address addr)) d (addr_Address addr) = (err, d')"
    by (cases "BitcoinService_SyncAddress up (clock (addr_Address addr)) d (addr_Address addr)")
  then have "reachable d'"
    using reachable_SyncAddress [OF Cons.prems, of up "clock (addr_Address addr)" "addr_Address addr"]
    by simp
  then show ?case using run Cons.IH by (cases err) simp_all
qed

lemma reachable_SyncAllAddresses:
  assumes "reachable d"
  shows "reachable (snd (BitcoinService_SyncAllAddresses up clock d))"
proof -
  let ?addrs = "sort_key (\<lambda>r. - addr_CreatedAt r) (addresses d)"
  obtain errs d' where run: "sync_each up clock d ?addrs [] = (errs, d')"
    by (cases "sync_each up clock d ?addrs []")
  then have "reachable d'" using reachable_sync_each [OF assms, of up clock ?addrs "[]"] by simp
  then show ?thesis
    using run
    by (simp add: BitcoinService_SyncAllAddresses_def SQLiteRepository_GetAllAddresses_def)
qed

lemma reachable_service_AddAddress:
  assumes "reachable d"
  shows "reachable (snd (BitcoinService_AddAddress up created now d a l))"
proof -
  have "reachable (snd (SQLiteRepository_AddAddress d created a l))"
    using assms by (rule reachable.AddAddress)
  then have "reachable (snd (BitcoinService_SyncAddress up now
                               (snd (SQLiteRepository_AddAddress d created a l)) a))"
    by (rule reachable_SyncAddress)
  then show ?thesis
    using assms \<open>reachable (snd (SQLiteRepository_AddAddress d created a l))\<close>
    by (auto simp: BitcoinService_AddAddress_def split: sum.splits prod.splits)
qed

lemma reachable_tracked_db: "reachable (tracked_db a)"
  unfolding tracked_db_def NewSQLiteRepository_def
  by (intro reachable.AddAddress reachable.opened)

lemma reachable_stale_db: "reachable stale_db"
  unfolding stale_db_def by (intro reachable_SyncAddress reachable_tracked_db)

section \<open>Removing an address\<close>

lemma RemoveAddress_untracked:
  "\<not> has_address d a \<Longrightarrow>
   BitcoinService_RemoveAddress d a = (Some (AddressNotFound a), d)"
  by (simp add: BitcoinService_RemoveAddress_def SQLiteRepository_RemoveAddress_def
      has_address_def list_ex_iff filter_empty_conv)

lemma RemoveAddress_tracked:
  "has_address d a \<Longrightarrow>
   fst (BitcoinService_RemoveAddress d a) = None
   \<and> \<not> has_address (snd (BitcoinService_RemoveAddress d a)) a
   \<and> BitcoinService_GetBalance (snd (BitcoinService_RemoveAddress d a)) a
       = Inl (Wrapped ''address not being tracked'' (AddressNotFound a))"
proof -
  assume h: "has_address d a"
  then have n: "filter (\<lambda>r. addr_Address r = a) (addresses d) \<noteq> []"
    by (auto simp: has_address_def list_ex_iff filter_empty_conv)
  then have 1: "fst (BitcoinService_RemoveAddress d a) = None"
    by (simp add: BitcoinService_RemoveAddress_def SQLiteRepository_RemoveAddress_def)
  have 2: "\<not> has_address (snd (BitcoinService_RemoveAddress d a)) a"
    using n by (simp add: BitcoinService_RemoveAddress_def SQLiteRepository_RemoveAddress_def
        has_address_def list_ex_iff)
  show ?thesis
    using 1 2 GetAddress_untracked [OF 2] by (simp add: BitcoinService_GetBalance_def)
qed

lemma RemoveAddress_cascade_when_enforced:
  "foreign_keys d \<Longrightarrow> has_address d a \<Longrightarrow>
   records_of (snd (BitcoinService_RemoveAddress d a)) a = []"
  by (auto simp: BitcoinService_RemoveAddress_def SQLiteRepository_RemoveAddress_def
      has_address_def list_ex_iff filter_empty_conv records_of_def)

section \<open>Synchronising all addresses\<close>

lemma watermark_ingested [simp]: "watermark (ingested d new) b = watermark d b"
  by (simp add: watermark_def SQLiteRepository_GetAddress_def ingested_def)

lemma sync_post_step:
  assumes "has_address d a"
  shows "sync_post up clock {a} d (snd (BitcoinService_SyncAddress up (clock a) d a))
       \<and> (fst (BitcoinService_SyncAddress up (clock a) d a) = None) = (\<not> fetch_fails up a)"
proof (cases rule: SyncAddress_cases [of d a up "clock a"])
  case untracked
  then show ?thesis using assms by simp
next
  case (failed e)
  then show ?thesis by (simp add: sync_post_def fetch_fails_def)
next
  case (fetched txs new)
  let ?d' = "marked (ingested d new) a (clock a)"
  have 1: "\<forall>b. has_address ?d' b = has_address d b" by simp
  have 2: "\<forall>h b. key_stored d h b \<longrightarrow> key_stored ?d' h b"
    by (simp add: key_stored_ingested)
  have 3: "\<forall>b. b \<notin> {a} \<longrightarrow> watermark ?d' b = watermark d b"
    by (simp add: watermark_marked)
  have 4: "watermark ?d' a = Some (clock a)"
    using assms by (simp add: watermark_marked)
  have 5: "\<forall>tx \<in> set txs. key_stored ?d' (tx_Hash tx) a"
    using fetched(5) by simp
  have "sync_post up clock {a} d ?d'"
    unfolding sync_post_def using 1 2 3 4 5 fetched(2) by (simp add: fetch_fails_def)
  then show ?thesis using fetched(2,3) by (simp add: fetch_fails_def)
qed

lemma sync_post_trans:
  assumes "sync_post up clock A d d1" "sync_post up clock B d1 d2"
  shows "sync_post up clock (A \<union> B) d d2"
proof -
  have h: "\<forall>b. has_address d2 b = has_address d b"
    using assms by (simp add: sync_post_def)
  have k: "\<forall>h b. key_stored d h b \<longrightarrow> key_stored d2 h b"
    using assms by (simp add: sync_post_def)
  have out: "\<forall>b. b \<notin> A \<union> B \<longrightarrow> watermark d2 b = watermark d b"
    using assms by (simp add: sync_post_def)
  have fail: "watermark d2 b = watermark d b" if "b \<in> A \<union> B" "fetch_fails up b" for b
  proof -
    have "watermark d2 b = watermark d1 b"
      using assms(2) that(2) unfolding sync_post_def by (cases "b \<in> B") auto
    moreover have "watermark d1 b = watermark d b"
      using assms(1) that(2) unfolding sync_post_def by (cases "b \<in> A") auto
    ultimately show ?thesis by simp
  qed
  have ok: "watermark d2 b = Some (clock b) \<and> (\<forall>tx \<in> set txs. key_stored d2 (tx_Hash tx) b)"
    if "b \<in> A \<union> B" "BlockchairClient_GetTransactions up b 100 = Inr txs" for b txs
  proof (cases "b \<in> B")
    case True
    then show ?thesis using assms(2) that(2) unfolding sync_post_def by blast
  next
    case False
    then have "b \<in> A" using that(1) by simp
    then have a: "watermark d1 b = Some (clock b)" "\<forall>tx \<in> set txs. key_stored d1 (tx_Hash tx) b"
      using assms(1) that(2) unfolding sync_post_def by blast+
    have "watermark d2 b = watermark d1 b"
      using assms(2) False unfolding sync_post_def by blast
    moreover have "\<forall>tx \<in> set txs. key_stored d2 (tx_Hash tx) b"
      using a(2) assms(2) unfolding sync_post_def by blast
    ultimately show ?thesis using a(1) by simp
  qed
  show ?thesis
    unfolding sync_post_def using h k out fail ok by blast
qed

lemma sync_post_ok:
  "sync_post up clock A d d' \<Longrightarrow> b \<in> A \<Longrightarrow>
   BlockchairClient_GetTransactions up b 100 = Inr txs \<Longrightarrow>
   watermark d' b = Some (clock b) \<and> (\<forall>tx \<in> set txs. key_stored d' (tx_Hash tx) b)"
  unfolding sync_post_def by blast

lemma sync_post_failed:
  "sync_post up clock A d d' \<Longrightarrow> b \<in> A \<Longrightarrow> fetch_fails up b \<Longrightarrow>
   watermark d' b = watermark d b"
  unfolding sync_post_def by blast

lemma sync_post_refl: "sync_post up clock {} d d"
  by (simp add: sync_post_def)

lemma sync_each_spec:
  assumes "\<forall>x \<in> set addrs. has_address d (addr_Address x)"
  shows "\<exists>errs' d'. sync_each up clock d addrs errs = (errs', d')
           \<and> length errs' = length errs
               + length (filter (\<lambda>x. fetch_fails up (addr_Address x)) addrs)
           \<and> sync_post up clock (addr_Address ` set addrs) d d'"
  using assms
proof (induction addrs arbitrary: d errs)
  case Nil
  then show ?case by (simp add: sync_post_refl)
next
  case (Cons addr addrs)
  let ?a = "addr_Address addr"
  obtain err d1 where run: "BitcoinService_SyncAddress up (clock ?a) d ?a = (err, d1)"
    by (cases "BitcoinService_SyncAddress up (clock ?a) d ?a")
  have tracked: "has_address d ?a" using Cons.prems by simp
  have step: "sync_post up clock {?a} d d1" and res: "(err = None) = (\<not> fetch_fails up ?a)"
    using sync_post_step [OF tracked, of up clock] run by simp_all
  have rest: "\<forall>x \<in> set addrs. has_address d1 (addr_Address x)"
    using Cons.prems step by (simp add: sync_post_def)
  let ?errs1 = "if fetch_fails up ?a
                then errs @ [Wrapped (''sync failed for '' @ ?a) (the err)] else errs"
  from Cons.IH [OF rest, of ?errs1] obtain errs' d' where
    ih: "sync_each up clock d1 addrs ?errs1 = (errs', d')"
      "length errs' = length ?errs1
         + length (filter (\<lambda>x. fetch_fails up (addr_Address x)) addrs)"
      "sync_post up clock (addr_Address ` set addrs) d1 d'"
    by blast
  have "sync_each up clock d (addr # addrs) errs = (errs', d')"
  proof (cases err)
    case None
    then show ?thesis using run res ih(1) by simp
  next
    case (Some e)
    then show ?thesis using run res ih(1) by simp
  qed
  moreover have "length errs' = length errs
               + length (filter (\<lambda>x. fetch_fails up (addr_Address x)) (addr # addrs))"
    using ih(2) by simp
  moreover have "sync_post up clock (addr_Address ` set (addr # addrs)) d d'"
    using sync_post_trans [OF step ih(3)] by simp
  ultimately show ?case by blast
qed

lemma two_db_eq:
  "two_db = \<lparr>foreign_keys = False,
     addresses = [\<lparr>addr_ID = 1, addr_Address = ''A'', addr_Label = ''wallet'',
                   addr_CreatedAt = 1, addr_LastSynced = None\<rparr>,
                  \<lparr>addr_ID = 2, addr_Address = ''B'', addr_Label = ''other'',
                   addr_CreatedAt = 2, addr_LastSynced = None\<rparr>],
     transactions = [], addresses_seq = 2, transactions_seq = 0\<rparr>"
  by (simp add: two_db_def tracked_db_def store_defs Let_def)

section \<open>Claims\<close>

subsection \<open>C6: the watermark\<close>

text \<open>
  Claim C6. For a tracked address, \<^verbatim>\<open>SyncAddress\<close> leaves the store, and with it the
  address's \<^verbatim>\<open>last_synced\<close>, unchanged whenever the fetch from the adapter fails; when
  the fetch succeeds the call succeeds and \<^verbatim>\<open>last_synced\<close> is the current time, also
  when no new record was inserted, in which case the watermark is the only change.
\<close>

theorem syncOne_watermark:
  assumes "has_address d a"
  shows "(\<forall>e. BlockchairClient_GetTransactions up a 100 = Inl e \<longrightarrow>
            BitcoinService_SyncAddress up now d a
            = (Some (Wrapped ''failed to fetch transactions from API'' e), d))
       \<and> (\<forall>txs. BlockchairClient_GetTransactions up a 100 = Inr txs \<longrightarrow>
            fst (BitcoinService_SyncAddress up now d a) = None
            \<and> watermark (snd (BitcoinService_SyncAddress up now d a)) a = Some now
            \<and> ((\<forall>tx \<in> set txs. SQLiteRepository_TransactionExists d (tx_Hash tx) a = Inr True)
                 \<longrightarrow> snd (BitcoinService_SyncAddress up now d a) = marked d a now))"
proof (intro conjI allI impI)
  fix e assume "BlockchairClient_GetTransactions up a 100 = Inl e"
  then show "BitcoinService_SyncAddress up now d a
            = (Some (Wrapped ''failed to fetch transactions from API'' e), d)"
    using SyncAddress_fetch_failed [OF assms] by simp
next
  fix txs assume f: "BlockchairClient_GetTransactions up a 100 = Inr txs"
  from SyncAddress_fetched [OF assms f, of now] obtain new where
    new: "BitcoinService_SyncAddress up now d a = (None, marked (ingested d new) a now)"
    by blast
  show "fst (BitcoinService_SyncAddress up now d a) = None" using new by simp
  show "watermark (snd (BitcoinService_SyncAddress up now d a)) a = Some now"
    using new assms by (simp add: watermark_marked)
  assume "\<forall>tx \<in> set txs. SQLiteRepository_TransactionExists d (tx_Hash tx) a = Inr True"
  then have "\<forall>tx \<in> set txs. key_stored d (tx_Hash tx) a"
    by (simp add: TransactionExists_eq)
  then show "snd (BitcoinService_SyncAddress up now d a) = marked d a now"
    using SyncAddress_nothing_new [OF assms f] by simp
qed

theorem syncOne_watermark_witness:
  "has_address (tracked_db ''A'') ''A''
   \<and> BlockchairClient_GetTransactions failing_upstream ''A'' 100
       = Inl (Wrapped ''failed to fetch transactions'' TransportFailure)
   \<and> snd (BitcoinService_SyncAddress failing_upstream 7 (tracked_db ''A'') ''A'')
       = tracked_db ''A''
   \<and> BlockchairClient_GetTransactions quiet_upstream ''A'' 100 = Inr []
   \<and> watermark (snd (BitcoinService_SyncAddress quiet_upstream 7 (tracked_db ''A'') ''A'')) ''A''
       = Some 7
   \<and> snd (BitcoinService_SyncAddress quiet_upstream 7 (tracked_db ''A'') ''A'')
       = marked (tracked_db ''A'') ''A'' 7"
proof -
  have h: "has_address (tracked_db ''A'') ''A''" by (rule has_address_tracked_db)
  have f: "BlockchairClient_GetTransactions failing_upstream ''A'' 100
       = Inl (Wrapped ''failed to fetch transactions'' TransportFailure)"
    by (simp add: BlockchairClient_GetTransactions_def failing_upstream_def)
  have q: "BlockchairClient_GetTransactions quiet_upstream ''A'' 100 = Inr []"
    by (simp add: BlockchairClient_GetTransactions_def quiet_upstream_def)
  show ?thesis
    using h f q syncOne_watermark [OF h, of failing_upstream 7]
      syncOne_watermark [OF h, of quiet_upstream 7]
    by (simp add: watermark_marked)
qed

subsection \<open>C2: idempotence\<close>

text \<open>
  Claim C2. Calling \<^verbatim>\<open>SyncAddress\<close> a second time while the adapter answers as it did
  the first time leaves the table of transactions exactly as the first call left it
  (same rows, hence no duplicate and the same count), for every store, address and
  response, whatever the outcome of the calls.
\<close>

theorem syncOne_idempotent:
  "transactions (snd (BitcoinService_SyncAddress up now2
                        (snd (BitcoinService_SyncAddress up now1 d a)) a))
   = transactions (snd (BitcoinService_SyncAddress up now1 d a))"
proof (cases rule: SyncAddress_cases [of d a up now1])
  case untracked
  then show ?thesis using SyncAddress_untracked [of d a up now2] by simp
next
  case (failed e)
  then show ?thesis using SyncAddress_fetch_failed [OF failed(1,2), of now2] by simp
next
  case (fetched txs new)
  let ?d1 = "marked (ingested d new) a now1"
  have "has_address ?d1 a" using fetched(1) by simp
  moreover have "\<forall>tx \<in> set txs. key_stored ?d1 (tx_Hash tx) a" using fetched(5) by simp
  ultimately have "BitcoinService_SyncAddress up now2 ?d1 a = (None, marked ?d1 a now2)"
    using SyncAddress_nothing_new fetched(2) by blast
  then show ?thesis using fetched(3) by simp
qed

theorem syncOne_idempotent_witness:
  "length (transactions (snd (BitcoinService_SyncAddress pending_upstream 9 stale_db ''A''))) = 1
   \<and> length (transactions stale_db) = 1"
  using syncOne_idempotent [of pending_upstream 9 5 "tracked_db ''A''" "''A''"]
  by (simp add: stale_db_def [symmetric] stale_db_eq)

subsection \<open>C1: an event whose key is already stored\<close>

text \<open>
  Claim C1, as the spec has it: when a fetched event's \<open>(hash, address)\<close> is already
  stored with another confirmation count, the stored record carries the new count
  after \<^verbatim>\<open>SyncAddress\<close>. The code does not do this: \<^verbatim>\<open>SyncAddress\<close> calls
  \<^verbatim>\<open>SaveTransaction\<close> only under \<^verbatim>\<open>if !exists\<close>. Below, \<open>h3\<close> is stored unconfirmed, the
  adapter then reports it in block 800020 (6 confirmations), the sync succeeds and the
  stored count is still 0.
\<close>

theorem syncOne_overwrite_counterexample:
  "SQLiteRepository_TransactionExists stale_db ''h3'' ''A'' = Inr True
   \<and> map tx_Confirmations (filter (same_key ''h3'' ''A'') (transactions stale_db)) = [0]
   \<and> map tx_Confirmations
        (case BlockchairClient_GetTransactions confirming_upstream ''A'' 100 of
           Inl e \<Rightarrow> [] | Inr txs \<Rightarrow> txs) = [6]
   \<and> fst (BitcoinService_SyncAddress confirming_upstream 9 stale_db ''A'') = None
   \<and> map tx_Confirmations
        (filter (same_key ''h3'' ''A'')
           (transactions (snd (BitcoinService_SyncAddress confirming_upstream 9 stale_db ''A''))))
      = [0]"
  by (simp add: stale_db_eq confirming_upstream_def store_defs sync_defs Let_def)

text \<open>
  Claim C1, amended. When \<open>(hash, address)\<close> is already stored, \<^verbatim>\<open>SyncAddress\<close> for that
  address leaves the rows with that key exactly as they were, confirmation count
  included: an already ingested event is skipped, whatever the adapter now reports.
\<close>

theorem syncOne_keeps_stored_record:
  assumes "SQLiteRepository_TransactionExists d h a = Inr True"
  shows "filter (same_key h a) (transactions (snd (BitcoinService_SyncAddress up now d a)))
         = filter (same_key h a) (transactions d)"
proof (cases rule: SyncAddress_cases [of d a up now])
  case untracked
  then show ?thesis by simp
next
  case (failed e)
  then show ?thesis by simp
next
  case (fetched txs new)
  have "key_stored d h a" using assms by (simp add: TransactionExists_eq)
  then have "filter (same_key h a) new = []"
    using fetched(4) by (auto simp: filter_empty_conv same_key_def)
  then show ?thesis using fetched(3) by (simp add: ingested_def)
qed

theorem syncOne_keeps_stored_record_witness:
  "SQLiteRepository_TransactionExists stale_db ''h3'' ''A'' = Inr True
   \<and> filter (same_key ''h3'' ''A'')
       (transactions (snd (BitcoinService_SyncAddress confirming_upstream 9 stale_db ''A'')))
     = filter (same_key ''h3'' ''A'') (transactions stale_db)"
proof -
  have h: "SQLiteRepository_TransactionExists stale_db ''h3'' ''A'' = Inr True"
    by (simp add: stale_db_eq store_defs)
  show ?thesis
    using h syncOne_keeps_stored_record [OF h, of confirming_upstream 9] by simp
qed

subsection \<open>C8: classification, and the three-event scenario\<close>

text \<open>
  Claim C8. The client turns every fetched event into a record of the address whose
  type is \<open>sent\<close> exactly when the balance change is negative and \<open>received\<close> otherwise,
  and whose confirmation count is 0 exactly when the block id is 0 and the fixed value
  6 otherwise. For the three events \<open>h1\<close> (+500000000, block 800000), \<open>h2\<close>
  (-200000000, block 800010) and \<open>h3\<close> (+100000000, no block), one \<^verbatim>\<open>SyncAddress\<close> of a
  freshly tracked address stores three records, \<open>h1\<close> and \<open>h2\<close> confirmed and \<open>h3\<close>
  unconfirmed, and \<^verbatim>\<open>GetBalance\<close> reports 300000000 confirmed, 100000000 unconfirmed
  and 400000000 in total.
\<close>

theorem classification_and_scenario:
  "(up a l = Response 200 (Some evs) \<longrightarrow>
      BlockchairClient_GetTransactions up a l = Inr (map (to_Transaction a) evs))
   \<and> tx_Type (to_Transaction a ev)
       = (if bc_BalanceChange ev < 0 then ''sent'' else ''received'')
   \<and> tx_Confirmations (to_Transaction a ev) = (if bc_BlockID ev = 0 then 0 else 6)
   \<and> map (\<lambda>t. (tx_Hash t, tx_Type t, tx_Confirmations t))
         (records_of (scenario_db a t1 t2 t3 now) a)
       = [(''h1'', ''received'', 6), (''h2'', ''sent'', 6), (''h3'', ''received'', 0)]
   \<and> BitcoinService_GetBalance (scenario_db a t1 t2 t3 now) a
       = Inr \<lparr>bal_Address = a, ConfirmedBalance = 300000000,
              UnconfirmedBalance = 100000000, TotalBalance = 400000000, BalanceBTC = 4\<rparr>"
proof -
  have "up a l = Response 200 (Some evs) \<longrightarrow>
      BlockchairClient_GetTransactions up a l = Inr (map (to_Transaction a) evs)"
    by (simp add: BlockchairClient_GetTransactions_def)
  moreover have "tx_Type (to_Transaction a ev)
       = (if bc_BalanceChange ev < 0 then ''sent'' else ''received'')"
    by (simp add: to_Transaction_def Let_def)
  moreover have "tx_Confirmations (to_Transaction a ev) = (if bc_BlockID ev = 0 then 0 else 6)"
    by (simp add: to_Transaction_def Let_def)
  moreover have "map (\<lambda>t. (tx_Hash t, tx_Type t, tx_Confirmations t))
         (records_of (scenario_db a t1 t2 t3 now) a)
       = [(''h1'', ''received'', 6), (''h2'', ''sent'', 6), (''h3'', ''received'', 0)]"
    by (simp add: records_of_def scenario_db_eq)
  ultimately show ?thesis using scenario_balance [of a t1 t2 t3 now] by blast
qed

theorem classification_and_scenario_witness:
  "scenario_upstream 1 2 3 ''A'' 100 = Response 200 (Some (scenario_events 1 2 3))
   \<and> BlockchairClient_GetTransactions (scenario_upstream 1 2 3) ''A'' 100
       = Inr (map (to_Transaction ''A'') (scenario_events 1 2 3))
   \<and> map tx_Confirmations (records_of (scenario_db ''A'' 1 2 3 7) ''A'') = [6, 6, 0]"
proof -
  have h: "scenario_upstream 1 2 3 ''A'' 100 = Response 200 (Some (scenario_events 1 2 3))"
    by (simp add: scenario_upstream_def)
  have "map (\<lambda>t. (tx_Hash t, tx_Type t, tx_Confirmations t))
         (records_of (scenario_db ''A'' 1 2 3 7) ''A'')
       = [(''h1'', ''received'', 6), (''h2'', ''sent'', 6), (''h3'', ''received'', 0)]"
    using classification_and_scenario
      [of "scenario_upstream 1 2 3" "''A''" 100 "scenario_events 1 2 3" "\<lparr>bc_BlockID = 800010, bc_Hash = ''h2'', bc_Time = 2, bc_BalanceChange = - 200000000\<rparr>"
       1 2 3 7]
    by blast
  then have "map (\<lambda>x. snd (snd x)) (map (\<lambda>t. (tx_Hash t, tx_Type t, tx_Confirmations t))
                (records_of (scenario_db ''A'' 1 2 3 7) ''A'')) = [6, 6, 0]"
    by simp
  then have c: "map tx_Confirmations (records_of (scenario_db ''A'' 1 2 3 7) ''A'') = [6, 6, 0]"
    by (simp add: comp_def)
  show ?thesis
    using h c classification_and_scenario
      [of "scenario_upstream 1 2 3" "''A''" 100 "scenario_events 1 2 3" "\<lparr>bc_BlockID = 800010, bc_Hash = ''h2'', bc_Time = 2, bc_BalanceChange = - 200000000\<rparr>"
       1 2 3 7]
    by blast
qed

subsection \<open>C10: listing all addresses\<close>

text \<open>
  Claim C10. \<^verbatim>\<open>GetAllAddresses\<close> of the service always succeeds in returning every
  tracked address, in the store's order; an address whose balance calculation fails is
  returned with the balance whose confirmed, unconfirmed, total and BTC values are all
  0, and every other address with its calculated balance.
\<close>

theorem listAll_never_fails:
  "\<exists>rows. BitcoinService_GetAllAddresses d = Inr rows
     \<and> map awb_Address rows = sort_key (\<lambda>r. - addr_CreatedAt r) (addresses d)
     \<and> (\<forall>x \<in> set rows. \<forall>e.
          SQLiteRepository_GetBalance d (addr_Address (awb_Address x)) = Inl e \<longrightarrow>
          awb_Balance x = \<lparr>bal_Address = addr_Address (awb_Address x), ConfirmedBalance = 0,
                           UnconfirmedBalance = 0, TotalBalance = 0, BalanceBTC = 0\<rparr>)
     \<and> (\<forall>x \<in> set rows. \<forall>b.
          SQLiteRepository_GetBalance d (addr_Address (awb_Address x)) = Inr b \<longrightarrow>
          awb_Balance x = b)"
proof -
  let ?addrs = "sort_key (\<lambda>r. - addr_CreatedAt r) (addresses d)"
  have "BitcoinService_GetAllAddresses d = Inr (with_balances d ?addrs)"
    by (simp add: BitcoinService_GetAllAddresses_def SQLiteRepository_GetAllAddresses_def)
  then show ?thesis
    using with_balances_spec [of d ?addrs] by (auto simp: zero_balance_def)
qed

theorem listAll_never_fails_witness:
  "SQLiteRepository_GetBalance overflow_db ''A''
     = Inl (Wrapped ''failed to calculate confirmed balance'' IntegerOverflow)
   \<and> BitcoinService_GetAllAddresses overflow_db
     = Inr [\<lparr>awb_Address = \<lparr>addr_ID = 1, addr_Address = ''A'', addr_Label = ''wallet'',
                             addr_CreatedAt = 1, addr_LastSynced = Some 5\<rparr>,
             awb_Balance = \<lparr>bal_Address = ''A'', ConfirmedBalance = 0,
                             UnconfirmedBalance = 0, TotalBalance = 0, BalanceBTC = 0\<rparr>\<rparr>]"
proof -
  have f: "SQLiteRepository_GetBalance overflow_db ''A''
     = Inl (Wrapped ''failed to calculate confirmed balance'' IntegerOverflow)"
    by (rule overflow_balance)
  from listAll_never_fails [of overflow_db] obtain rows where
    rows: "BitcoinService_GetAllAddresses overflow_db = Inr rows"
      "map awb_Address rows = sort_key (\<lambda>r. - addr_CreatedAt r) (addresses overflow_db)"
      "\<forall>x \<in> set rows. \<forall>e.
          SQLiteRepository_GetBalance overflow_db (addr_Address (awb_Address x)) = Inl e \<longrightarrow>
          awb_Balance x = \<lparr>bal_Address = addr_Address (awb_Address x), ConfirmedBalance = 0,
                           UnconfirmedBalance = 0, TotalBalance = 0, BalanceBTC = 0\<rparr>"
    by blast
  from rows(2) obtain x where x: "rows = [x]"
    "awb_Address x = \<lparr>addr_ID = 1, addr_Address = ''A'', addr_Label = ''wallet'',
                             addr_CreatedAt = 1, addr_LastSynced = Some 5\<rparr>"
    by (auto simp: overflow_db_eq)
  have "awb_Balance x = \<lparr>bal_Address = ''A'', ConfirmedBalance = 0,
                             UnconfirmedBalance = 0, TotalBalance = 0, BalanceBTC = 0\<rparr>"
    using rows(3) x f by simp
  then have "x = \<lparr>awb_Address = \<lparr>addr_ID = 1, addr_Address = ''A'', addr_Label = ''wallet'',
                             addr_CreatedAt = 1, addr_LastSynced = Some 5\<rparr>,
             awb_Balance = \<lparr>bal_Address = ''A'', ConfirmedBalance = 0,
                             UnconfirmedBalance = 0, TotalBalance = 0, BalanceBTC = 0\<rparr>\<rparr>"
    using x(2) by (cases x) simp
  then show ?thesis using f rows(1) x(1) by simp
qed

subsection \<open>C9: listing transactions\<close>



subsection \<open>C3: the balance\<close>

text \<open>
  Claim C3, as the spec has it: for every set of stored records \<^verbatim>\<open>GetBalance\<close> returns
  the sums of the confirmed and of the unconfirmed amounts. Amounts are 64-bit and
  SQLite's \<^verbatim>\<open>SUM\<close> fails with "integer overflow" when a partial sum leaves the range:
  with two confirmed records of \<open>2 ^ 62\<close> satoshis the confirmed sum is \<open>2 ^ 63\<close>, which
  no \<^verbatim>\<open>int64\<close> holds, and \<^verbatim>\<open>GetBalance\<close> fails.
\<close>

theorem balanceOf_overflow_counterexample:
  "has_address overflow_db ''A''
   \<and> spec_confirmed overflow_db ''A'' = 9223372036854775808
   \<and> BitcoinService_GetBalance overflow_db ''A''
       = Inl (Wrapped ''failed to calculate confirmed balance'' IntegerOverflow)"
proof -
  have h: "has_address overflow_db ''A''"
    by (simp add: overflow_db_eq has_address_def)
  obtain r where "SQLiteRepository_GetAddress overflow_db ''A'' = Inr r"
    using GetAddress_tracked [OF h] by blast
  then have "BitcoinService_GetBalance overflow_db ''A''
       = Inl (Wrapped ''failed to calculate confirmed balance'' IntegerOverflow)"
    by (simp add: BitcoinService_GetBalance_def overflow_balance)
  moreover have "spec_confirmed overflow_db ''A'' = 9223372036854775808"
    by (simp add: spec_confirmed_def records_of_def overflow_db_eq)
  ultimately show ?thesis using h by simp
qed

text \<open>
  Claim C3, amended. For a tracked address whose records' absolute amounts sum to less
  than \<open>2 ^ 63\<close>, \<^verbatim>\<open>GetBalance\<close> succeeds with \<open>confirmed\<close> the sum of the amounts of its
  records with \<open>confirmation_count \<ge> 1\<close>, \<open>unconfirmed\<close> the sum of those with
  \<open>confirmation_count = 0\<close> and \<open>total = confirmed + unconfirmed\<close>; and every store that
  holds the same records in another order gives the same balance.
\<close>

theorem balanceOf_sums:
  assumes "has_address d a" "volume d a < 2 ^ 63"
  shows "\<exists>b. BitcoinService_GetBalance d a = Inr b
     \<and> ConfirmedBalance b
       = sum_list (map tx_Amount (filter (\<lambda>t. tx_Confirmations t \<ge> 1) (records_of d a)))
     \<and> UnconfirmedBalance b
       = sum_list (map tx_Amount (filter (\<lambda>t. tx_Confirmations t = 0) (records_of d a)))
     \<and> TotalBalance b = ConfirmedBalance b + UnconfirmedBalance b
     \<and> (\<forall>d'. has_address d' a \<and> mset (transactions d') = mset (transactions d)
            \<longrightarrow> BitcoinService_GetBalance d' a = Inr b)"
proof -
  let ?b = "\<lparr>bal_Address = a, ConfirmedBalance = spec_confirmed d a,
                UnconfirmedBalance = spec_unconfirmed d a,
                TotalBalance = spec_confirmed d a + spec_unconfirmed d a,
                BalanceBTC = of_int (spec_confirmed d a + spec_unconfirmed d a) / 100000000\<rparr>"
  have run: "BitcoinService_GetBalance e a = Inr ?b"
    if e: "has_address e a" "mset (transactions e) = mset (transactions d)" for e
  proof -
    have m: "mset (records_of e a) = mset (records_of d a)"
      using e(2) by (rule records_of_mset)
    have "volume e a = volume d a"
      unfolding volume_def using m by (rule sum_map_mset)
    moreover have "spec_confirmed e a = spec_confirmed d a"
      unfolding spec_confirmed_def using m by (rule sum_filter_mset)
    moreover have "spec_unconfirmed e a = spec_unconfirmed d a"
      unfolding spec_unconfirmed_def using m by (rule sum_filter_mset)
    moreover obtain r where "SQLiteRepository_GetAddress e a = Inr r"
      using GetAddress_tracked [OF e(1)] by blast
    ultimately show ?thesis
      using CalculateBalance_exact [of e a] assms(2)
      by (simp add: BitcoinService_GetBalance_def SQLiteRepository_GetBalance_def)
  qed
  have "BitcoinService_GetBalance d a = Inr ?b" using run [of d] assms(1) by simp
  then show ?thesis
    using run by (intro exI [of _ ?b]) (simp add: spec_confirmed_def spec_unconfirmed_def)
qed

theorem balanceOf_sums_witness:
  "has_address (scenario_db ''A'' 1 2 3 7) ''A''
   \<and> volume (scenario_db ''A'' 1 2 3 7) ''A'' < 2 ^ 63
   \<and> (\<exists>b. BitcoinService_GetBalance (scenario_db ''A'' 1 2 3 7) ''A'' = Inr b
          \<and> ConfirmedBalance b = 300000000 \<and> UnconfirmedBalance b = 100000000
          \<and> TotalBalance b = ConfirmedBalance b + UnconfirmedBalance b)"
proof -
  have h: "has_address (scenario_db ''A'' 1 2 3 7) ''A''" by (rule scenario_db_tracked)
  have v: "volume (scenario_db ''A'' 1 2 3 7) ''A'' < 2 ^ 63"
    by (simp add: volume_def records_of_def scenario_db_eq)
  from balanceOf_sums [OF h v] obtain b where
    b: "BitcoinService_GetBalance (scenario_db ''A'' 1 2 3 7) ''A'' = Inr b"
      "ConfirmedBalance b = sum_list (map tx_Amount (filter (\<lambda>t. tx_Confirmations t \<ge> 1)
                                        (records_of (scenario_db ''A'' 1 2 3 7) ''A'')))"
      "UnconfirmedBalance b = sum_list (map tx_Amount (filter (\<lambda>t. tx_Confirmations t = 0)
                                        (records_of (scenario_db ''A'' 1 2 3 7) ''A'')))"
      "TotalBalance b = ConfirmedBalance b + UnconfirmedBalance b"
    by blast
  have "ConfirmedBalance b = 300000000" "UnconfirmedBalance b = 100000000"
    using b(2,3) by (simp_all add: records_of_def scenario_db_eq)
  then show ?thesis using h v b(1,4) by blast
qed

subsection \<open>C5: uniqueness of \<open>(hash, address)\<close>\<close>

text \<open>
  Claim C5. In every reachable store no two transactions share \<open>(hash, address)\<close>.
  Reachability is closed under every statement the repository issues, in any order
  and with any arguments, hence under repeated and interleaved ingestion of the same
  event, and under the operations of the service.
\<close>

theorem keys_unique:
  assumes "reachable d"
  shows "unique_keys d
     \<and> reachable (snd (BitcoinService_SyncAddress up now d a))
     \<and> reachable (snd (BitcoinService_SyncAllAddresses up clock d))
     \<and> reachable (snd (BitcoinService_AddAddress up created now d a l))
     \<and> reachable (snd (BitcoinService_RemoveAddress d a))"
proof -
  have "unique_keys d"
    using assms
  proof (induction rule: reachable.induct)
    case (opened fk)
    then show ?case by (simp add: unique_keys_def empty_db_def)
  next
    case (AddAddress d now a l)
    then show ?case by (simp add: AddAddress_unique)
  next
    case (RemoveAddress d a)
    then show ?case by (simp add: RemoveAddress_unique)
  next
    case (UpdateLastSynced d a t)
    then show ?case by (simp add: UpdateLastSynced_unique)
  next
    case (SaveTransaction d tx)
    then show ?case by (simp add: SaveTransaction_unique)
  qed
  moreover have "reachable (snd (BitcoinService_RemoveAddress d a))"
    using assms by (simp add: BitcoinService_RemoveAddress_def reachable.RemoveAddress)
  ultimately show ?thesis
    using assms reachable_SyncAddress reachable_SyncAllAddresses reachable_service_AddAddress
    by blast
qed

theorem keys_unique_witness:
  "reachable stale_db
   \<and> unique_keys (snd (BitcoinService_SyncAddress pending_upstream 9 stale_db ''A''))
   \<and> map tx_key (transactions (snd (BitcoinService_SyncAddress pending_upstream 9 stale_db ''A'')))
     = [(''h3'', ''A'')]"
proof -
  have r: "reachable stale_db" by (rule reachable_stale_db)
  have r2: "reachable (snd (BitcoinService_SyncAddress pending_upstream 9 stale_db ''A''))"
    using keys_unique [OF r] by blast
  have "unique_keys (snd (BitcoinService_SyncAddress pending_upstream 9 stale_db ''A''))"
    using keys_unique [OF r2] by blast
  moreover have "map tx_key
      (transactions (snd (BitcoinService_SyncAddress pending_upstream 9 stale_db ''A'')))
     = [(''h3'', ''A'')]"
    by (simp add: stale_db_eq pending_upstream_def store_defs sync_defs Let_def tx_key_def)
  ultimately show ?thesis using r by blast
qed

subsection \<open>C4: removing an address\<close>

text \<open>
  Claim C4 says that after \<open>remove(addr)\<close> the address's ledger records are gone. The
  schema asks for it (\<^verbatim>\<open>ON DELETE CASCADE\<close>), but the connection never turns foreign
  keys on, and \<^verbatim>\<open>RemoveAddress\<close> deletes from \<^verbatim>\<open>addresses\<close> only. Here address \<open>A\<close> is
  tracked with the stored transaction \<open>h3\<close>; removing it succeeds, and the store still
  lists \<open>h3\<close> for \<open>A\<close>. (The rest of the claim holds: see \<open>RemoveAddress_untracked\<close>,
  \<open>RemoveAddress_tracked\<close>, and \<open>RemoveAddress_cascade_when_enforced\<close> for a connection
  with foreign keys on.)
\<close>

theorem removeAddress_keeps_transactions:
  "foreign_keys NewSQLiteRepository = False
   \<and> has_address stale_db ''A''
   \<and> fst (BitcoinService_RemoveAddress stale_db ''A'') = None
   \<and> map tx_Hash
        (case SQLiteRepository_GetTransactionsByAddress
                (snd (BitcoinService_RemoveAddress stale_db ''A'')) ''A'' 50 0 of
           Inl e \<Rightarrow> [] | Inr rows \<Rightarrow> rows) = [''h3'']"
  by (simp add: stale_db_eq BitcoinService_RemoveAddress_def SQLiteRepository_RemoveAddress_def
      SQLiteRepository_GetTransactionsByAddress_def has_address_def NewSQLiteRepository_def
      empty_db_def)

subsection \<open>C7: synchronising all addresses\<close>

text \<open>
  Claim C7. \<^verbatim>\<open>SyncAllAddresses\<close> synchronises every tracked address in turn and a
  failure does not stop the others: it succeeds exactly when no address's fetch
  fails, and otherwise fails with an error that carries only the number of failed
  addresses; every tracked address whose fetch succeeds ends with its events stored
  and its watermark advanced, and every address whose fetch fails keeps its watermark.
\<close>

theorem syncAll_partial_failure:
  "fst (BitcoinService_SyncAllAddresses up clock d)
     = (let failures = length (filter (\<lambda>x. isl (BlockchairClient_GetTransactions up
                                                   (addr_Address x) 100)) (addresses d))
        in if failures = 0 then None else Some (SyncCompletedWithErrors failures))
   \<and> (\<forall>a txs. has_address d a \<and> BlockchairClient_GetTransactions up a 100 = Inr txs \<longrightarrow>
         watermark (snd (BitcoinService_SyncAllAddresses up clock d)) a = Some (clock a)
         \<and> (\<forall>tx \<in> set txs. SQLiteRepository_TransactionExists
                               (snd (BitcoinService_SyncAllAddresses up clock d))
                               (tx_Hash tx) a = Inr True))
   \<and> (\<forall>a. has_address d a \<and> isl (BlockchairClient_GetTransactions up a 100) \<longrightarrow>
         watermark (snd (BitcoinService_SyncAllAddresses up clock d)) a = watermark d a)"
proof -
  let ?addrs = "sort_key (\<lambda>r. - addr_CreatedAt r) (addresses d)"
  let ?n = "length (filter (\<lambda>x. fetch_fails up (addr_Address x)) (addresses d))"
  have tracked: "\<forall>x \<in> set ?addrs. has_address d (addr_Address x)"
    by (auto simp: has_address_def list_ex_iff)
  from sync_each_spec [OF tracked, of up clock "[]"] obtain errs d' where
    run: "sync_each up clock d ?addrs [] = (errs, d')"
      "length errs = length ([]::error list)
         + length (filter (\<lambda>x. fetch_fails up (addr_Address x)) ?addrs)"
      "sync_post up clock (addr_Address ` set ?addrs) d d'"
    by blast
  have "filter (\<lambda>x. fetch_fails up (addr_Address x)) ?addrs
        = sort_key (\<lambda>r. - addr_CreatedAt r)
            (filter (\<lambda>x. fetch_fails up (addr_Address x)) (addresses d))"
    by (rule filter_sort)
  then have n: "length errs = ?n" using run(2) by simp
  have all: "BitcoinService_SyncAllAddresses up clock d
             = (if ?n = 0 then None else Some (SyncCompletedWithErrors ?n), d')"
    using run(1) n
    by (auto simp: BitcoinService_SyncAllAddresses_def SQLiteRepository_GetAllAddresses_def)
  have names: "\<And>a. has_address d a \<Longrightarrow> a \<in> addr_Address ` set ?addrs"
    by (auto simp: has_address_def list_ex_iff)
  have ok: "watermark d' a = Some (clock a)
            \<and> (\<forall>tx \<in> set txs. SQLiteRepository_TransactionExists d' (tx_Hash tx) a = Inr True)"
    if "has_address d a" "BlockchairClient_GetTransactions up a 100 = Inr txs" for a txs
    using sync_post_ok [OF run(3) names [OF that(1)] that(2)]
    by (simp add: TransactionExists_eq)
  have failed: "watermark d' a = watermark d a"
    if "has_address d a" "isl (BlockchairClient_GetTransactions up a 100)" for a
    using sync_post_failed [OF run(3) names [OF that(1)]] that(2)
    by (simp add: fetch_fails_def)
  show ?thesis
    using all ok failed by (simp add: fetch_fails_def Let_def)
qed

theorem syncAll_partial_failure_witness:
  "has_address two_db ''A'' \<and> has_address two_db ''B''
   \<and> BlockchairClient_GetTransactions half_upstream ''A'' 100
       = Inr (map (to_Transaction ''A'') (scenario_events 1 2 3))
   \<and> isl (BlockchairClient_GetTransactions half_upstream ''B'' 100)
   \<and> fst (BitcoinService_SyncAllAddresses half_upstream (\<lambda>a. 7) two_db)
       = Some (SyncCompletedWithErrors 1)
   \<and> watermark (snd (BitcoinService_SyncAllAddresses half_upstream (\<lambda>a. 7) two_db)) ''A''
       = Some 7
   \<and> SQLiteRepository_TransactionExists
        (snd (BitcoinService_SyncAllAddresses half_upstream (\<lambda>a. 7) two_db)) ''h1'' ''A'' = Inr True
   \<and> watermark (snd (BitcoinService_SyncAllAddresses half_upstream (\<lambda>a. 7) two_db)) ''B'' = None"
proof -
  have a: "has_address two_db ''A''" and b: "has_address two_db ''B''"
    by (simp_all add: two_db_eq has_address_def)
  have fa: "BlockchairClient_GetTransactions half_upstream ''A'' 100
       = Inr (map (to_Transaction ''A'') (scenario_events 1 2 3))"
    by (simp add: BlockchairClient_GetTransactions_def half_upstream_def)
  have fb: "isl (BlockchairClient_GetTransactions half_upstream ''B'' 100)"
    by (simp add: BlockchairClient_GetTransactions_def half_upstream_def)
  have n: "length (filter (\<lambda>x. isl (BlockchairClient_GetTransactions half_upstream
                                        (addr_Address x) 100)) (addresses two_db)) = 1"
    by (simp add: two_db_eq BlockchairClient_GetTransactions_def half_upstream_def)
  have wb: "watermark two_db ''B'' = None"
    by (simp add: two_db_eq watermark_def SQLiteRepository_GetAddress_def)
  have h1: "to_Transaction ''A'' \<lparr>bc_BlockID = 800000, bc_Hash = ''h1'', bc_Time = 1,
                                    bc_BalanceChange = 500000000\<rparr>
            \<in> set (map (to_Transaction ''A'') (scenario_events 1 2 3))"
    by (simp add: scenario_events_def)
  have "SQLiteRepository_TransactionExists
        (snd (BitcoinService_SyncAllAddresses half_upstream (\<lambda>a. 7) two_db))
        (tx_Hash (to_Transaction ''A'' \<lparr>bc_BlockID = 800000, bc_Hash = ''h1'', bc_Time = 1,
                                    bc_BalanceChange = 500000000\<rparr>)) ''A'' = Inr True"
    using syncAll_partial_failure [of half_upstream "\<lambda>a. 7" two_db] a fa h1 by blast
  then have e: "SQLiteRepository_TransactionExists
        (snd (BitcoinService_SyncAllAddresses half_upstream (\<lambda>a. 7) two_db)) ''h1'' ''A'' = Inr True"
    by (simp add: to_Transaction_def Let_def)
  have "fst (BitcoinService_SyncAllAddresses half_upstream (\<lambda>a. 7) two_db)
       = Some (SyncCompletedWithErrors 1)"
    using syncAll_partial_failure [of half_upstream "\<lambda>a. 7" two_db] n by (simp add: Let_def)
  moreover have "watermark (snd (BitcoinService_SyncAllAddresses half_upstream (\<lambda>a. 7) two_db)) ''A''
       = Some 7"
    using syncAll_partial_failure [of half_upstream "\<lambda>a. 7" two_db] a fa by blast
  moreover have "watermark (snd (BitcoinService_SyncAllAddresses half_upstream (\<lambda>a. 7) two_db)) ''B''
       = None"
    using syncAll_partial_failure [of half_upstream "\<lambda>a. 7" two_db] b fb wb by simp
  ultimately show ?thesis using a b fa fb e by blast
qed

end
